theory Spec2Isabelle
  imports Main "HOL-Library.Word" "HOL-Library.List_Lexorder"
begin

section \<open>Hardened sessions: the stored data\<close>

text \<open>
  The tables of \<^verbatim>\<open>migrations/add_ultra_secure_chat.sql\<close> and
  \<^verbatim>\<open>migrations/create_uss_messages_table.sql\<close>, as far as \<^verbatim>\<open>services/ussService.js\<close>
  reads and writes them. Text columns are \<^typ>\<open>string\<close>; \<^verbatim>\<open>TIMESTAMP\<close> columns are
  clock readings (\<^typ>\<open>nat\<close>), nullable ones are options. \<^verbatim>\<open>wrong_attempts\<close> is an
  \<^verbatim>\<open>INT\<close> that the service only ever sets to 0 or increments by one; it is a \<^typ>\<open>nat\<close>.
\<close>

datatype status = ACTIVE | LOCKED | DELETED

record uss_session =
  session_id :: nat
  user_a :: string
  user_b :: string
  user_a_email :: string
  user_b_email :: string
  double_encrypted_key_a :: string
  double_encrypted_key_b :: string
  passphrase_hash :: string
  salt :: string
  iv_a :: string
  iv_b :: string
  wrong_attempts :: nat
  status :: status
  created_at :: nat
  last_access :: "nat option"
  locked_at :: "nat option"

record uss_message =
  msg_id :: nat
  uss_session_id :: nat
  sender :: string
  receiver :: string
  content :: string
  msg_no :: "nat option"
  signature :: "string option"
  verified :: bool
  timestamp :: nat

datatype event_type =
    USS_CREATED | USS_ACCESSED | USS_ACCESS_DENIED | USS_LOCKDOWN
  | DECOY_ACTIVATED | BACKUP_SENT | BACKUP_FAILED | DATA_WIPED

text \<open>
  What \<^verbatim>\<open>activateLockdown\<close>'s \<^verbatim>\<open>try\<close> block can throw: one constructor for each call
  to a collaborator that may reject.
\<close>

datatype lockdown_error = ExportError | ZipError | DeleteError | UpdateError

text \<open>
  The \<^verbatim>\<open>details\<close> column holds \<^verbatim>\<open>JSON.stringify\<close> of an object; each constructor is one
  of the object shapes the service writes, without the \<^verbatim>\<open>timestamp\<close> member.
\<close>

datatype details =
    CreatedDetails string string
  | AttemptsDetails nat
  | AccessedDetails
  | BackupDetails nat nat
  | WipedDetails nat
  | LockdownDetails string string nat nat
  | LockdownFailedDetails lockdown_error

record security_event =
  event_type :: event_type
  event_session_id :: nat
  user_involved :: "string option"
  details :: details

text \<open>
  A message handed to \<^verbatim>\<open>emailService.sendSecurityEmail\<close>: the arguments of the call.
  The archive \<^verbatim>\<open>zipBuffer\<close> is represented by the messages packed into it.
\<close>

record security_email =
  recipientEmail :: string
  recipientName :: string
  zipBuffer :: "uss_message list"
  email_session_id :: nat
  email_user_a :: string
  email_user_b :: string

text \<open>
  The state the service acts on: the three tables and the mail that left the system.
\<close>

record state =
  ultra_secure_sessions :: "nat \<rightharpoonup> uss_session"
  uss_messages :: "uss_message list"
  security_events :: "security_event list"
  sent_emails :: "security_email list"

text \<open>
  The collaborators of one call: the clock (\<^verbatim>\<open>NOW()\<close>) and, for each step of the
  lockdown that calls out, whether the call rejects. \<^verbatim>\<open>mail_delivers\<close> says for each
  address whether \<^verbatim>\<open>sendSecurityEmail\<close> resolves (it throws otherwise). Reads and
  updates of \<^verbatim>\<open>ultra_secure_sessions\<close> by primary key outside the lockdown are taken
  to answer.
\<close>

record collaborators =
  now :: nat
  export_fails :: bool
  zip_fails :: bool
  mail_delivers :: "string \<Rightarrow> bool"
  delete_fails :: bool
  update_fails :: bool

section \<open>Hardened sessions: the service\<close>

text \<open>
  \<^verbatim>\<open>logSecurityEvent\<close>: one \<^verbatim>\<open>INSERT\<close> inside a \<^verbatim>\<open>try\<close> whose \<^verbatim>\<open>catch\<close> only prints.
  \<^verbatim>\<open>security_events.session_id\<close> is a foreign key into \<^verbatim>\<open>ultra_secure_sessions\<close>, so
  the insert is rejected, and the event lost, when the session does not exist.
\<close>

definition logSecurityEvent :: "state \<Rightarrow> security_event \<Rightarrow> state" where
  "logSecurityEvent st ev =
     (if event_session_id ev \<in> dom (ultra_secure_sessions st)
      then st\<lparr>security_events := security_events st @ [ev]\<rparr>
      else st)"

text \<open>An \<^verbatim>\<open>UPDATE ... WHERE session_id = ?\<close>: changes the row if there is one.\<close>

definition update_session :: "state \<Rightarrow> nat \<Rightarrow> (uss_session \<Rightarrow> uss_session) \<Rightarrow> state" where
  "update_session st sid f =
     (case ultra_secure_sessions st sid of
        None \<Rightarrow> st
      | Some s \<Rightarrow> st\<lparr>ultra_secure_sessions := (ultra_secure_sessions st)(sid \<mapsto> f s)\<rparr>)"

definition exportMessages :: "state \<Rightarrow> nat \<Rightarrow> uss_message list" where
  "exportMessages st sid =
     sort_key timestamp (filter (\<lambda>m. uss_session_id m = sid) (uss_messages st))"

text \<open>The object \<^verbatim>\<open>getUSSSession\<close> returns.\<close>

record session_view =
  sessionId :: nat
  userA :: string
  userB :: string
  doubleEncryptedKey :: string
  passphraseHash :: string
  view_salt :: string
  iv :: string
  wrongAttempts :: nat
  view_status :: status
  createdAt :: nat
  lastAccess :: "nat option"

definition getUSSSession ::
  "collaborators \<Rightarrow> state \<Rightarrow> nat \<Rightarrow> string \<Rightarrow> session_view option \<times> state" where
  "getUSSSession env st sid requestingUser =
     (case ultra_secure_sessions st sid of
        None \<Rightarrow> (None, st)
      | Some session \<Rightarrow>
          (let isUserA = (requestingUser = user_a session);
               key = (if isUserA then double_encrypted_key_a session
                      else double_encrypted_key_b session);
               iv' = (if isUserA then iv_a session else iv_b session);
               st' = update_session st sid (\<lambda>s. s\<lparr>last_access := Some (now env)\<rparr>)
           in (Some \<lparr>sessionId = session_id session,
                     userA = user_a session,
                     userB = user_b session,
                     doubleEncryptedKey = key,
                     passphraseHash = passphrase_hash session,
                     view_salt = salt session,
                     iv = iv',
                     wrongAttempts = wrong_attempts session,
                     view_status = status session,
                     createdAt = created_at session,
                     lastAccess = last_access session\<rparr>, st')))"

text \<open>
  The handler of \<^verbatim>\<open>GET /api/uss/:sessionId\<close> in \<^verbatim>\<open>routes/ussRoutes.js\<close>. The session id
  arrives already parsed; \<^verbatim>\<open>!requestingUser\<close> holds of the empty string.
\<close>

datatype get_response =
    BadRequest | NotFound | ForbiddenLocked | GoneDeleted | OkSession session_view

definition get_session_route ::
  "collaborators \<Rightarrow> state \<Rightarrow> nat \<Rightarrow> string \<Rightarrow> get_response \<times> state" where
  "get_session_route env st sid requestingUser =
     (if requestingUser = [] then (BadRequest, st)
      else case getUSSSession env st sid requestingUser of
             (None, st') \<Rightarrow> (NotFound, st')
           | (Some session, st') \<Rightarrow>
               (if view_status session = LOCKED then (ForbiddenLocked, st')
                else if view_status session = DELETED then (GoneDeleted, st')
                else (OkSession session, st')))"

text \<open>
  \<^verbatim>\<open>activateLockdown\<close>. The recipients of the archive: a participant is mailed when the
  stored address is truthy, that is, not the empty string.
\<close>

definition lockdown_recipients :: "uss_session \<Rightarrow> uss_message list \<Rightarrow> nat \<Rightarrow> security_email list" where
  "lockdown_recipients sessionData archive sid =
     (if user_a_email sessionData \<noteq> []
      then [\<lparr>recipientEmail = user_a_email sessionData, recipientName = user_a sessionData,
             zipBuffer = archive, email_session_id = sid,
             email_user_a = user_a sessionData, email_user_b = user_b sessionData\<rparr>]
      else []) @
     (if user_b_email sessionData \<noteq> []
      then [\<lparr>recipientEmail = user_b_email sessionData, recipientName = user_b sessionData,
             zipBuffer = archive, email_session_id = sid,
             email_user_a = user_a sessionData, email_user_b = user_b sessionData\<rparr>]
      else [])"

text \<open>
  Step 4 of \<^verbatim>\<open>activateLockdown\<close>: mail the archive to both participants, each
  rejection turned into \<^verbatim>\<open>{ success: false }\<close> by its own \<^verbatim>\<open>.catch\<close>, then log one
  event for the outcome. Returns \<^verbatim>\<open>successfulEmails\<close>.
\<close>

definition email_backup ::
  "collaborators \<Rightarrow> state \<Rightarrow> nat \<Rightarrow> uss_session \<Rightarrow> uss_message list \<Rightarrow> nat \<times> state" where
  "email_backup env st sid sessionData messages =
     (let emails = lockdown_recipients sessionData messages sid;
          delivered = filter (\<lambda>e. mail_delivers env (recipientEmail e)) emails;
          successfulEmails = length delivered;
          st1 = st\<lparr>sent_emails := sent_emails st @ delivered\<rparr>
      in (successfulEmails,
          logSecurityEvent st1
            \<lparr>event_type = (if successfulEmails > 0 then BACKUP_SENT else BACKUP_FAILED),
             event_session_id = sid, user_involved = None,
             details = BackupDetails successfulEmails (length emails)\<rparr>))"

text \<open>Step 5: the \<^verbatim>\<open>DELETE\<close> and its \<^verbatim>\<open>DATA_WIPED\<close> event.\<close>

definition wipe_messages :: "state \<Rightarrow> nat \<Rightarrow> state" where
  "wipe_messages st sid =
     (let affectedRows = length (filter (\<lambda>m. uss_session_id m = sid) (uss_messages st));
          st1 = st\<lparr>uss_messages := filter (\<lambda>m. uss_session_id m \<noteq> sid) (uss_messages st)\<rparr>
      in logSecurityEvent st1
           \<lparr>event_type = DATA_WIPED, event_session_id = sid, user_involved = None,
            details = WipedDetails affectedRows\<rparr>)"

text \<open>Steps 6 and 7: the status \<^verbatim>\<open>UPDATE\<close> and the \<^verbatim>\<open>USS_LOCKDOWN\<close> event.\<close>

definition lock_session ::
  "collaborators \<Rightarrow> state \<Rightarrow> nat \<Rightarrow> uss_session \<Rightarrow> nat \<Rightarrow> nat \<Rightarrow> state" where
  "lock_session env st sid sessionData messagesExported emailsSent =
     logSecurityEvent
       (update_session st sid (\<lambda>s. s\<lparr>status := LOCKED, locked_at := Some (now env)\<rparr>))
       \<lparr>event_type = USS_LOCKDOWN, event_session_id = sid, user_involved = None,
        details = LockdownDetails (user_a sessionData) (user_b sessionData)
                    messagesExported emailsSent\<rparr>"

text \<open>
  The body of the \<^verbatim>\<open>try\<close> block after the session row was found. A rejected call
  leaves the block with the state reached so far: what was mailed, logged and deleted
  before stays so.
\<close>

definition lockdown_steps ::
  "collaborators \<Rightarrow> state \<Rightarrow> nat \<Rightarrow> uss_session \<Rightarrow> (lockdown_error \<times> state) + state" where
  "lockdown_steps env st sid sessionData =
     (if export_fails env then Inl (ExportError, st)
      else
        let messages = exportMessages st sid in
        if zip_fails env then Inl (ZipError, st)
        else
          case email_backup env st sid sessionData messages of
            (successfulEmails, st2) \<Rightarrow>
              if delete_fails env then Inl (DeleteError, st2)
              else
                let st4 = wipe_messages st2 sid in
                if update_fails env then Inl (UpdateError, st4)
                else Inr (lock_session env st4 sid sessionData (length messages) successfulEmails))"

definition activateLockdown :: "collaborators \<Rightarrow> state \<Rightarrow> nat \<Rightarrow> state" where
  "activateLockdown env st sid =
     (case ultra_secure_sessions st sid of
        None \<Rightarrow> st
      | Some sessionData \<Rightarrow>
          (case lockdown_steps env st sid sessionData of
             Inr st' \<Rightarrow> st'
           | Inl (error, st') \<Rightarrow>
               logSecurityEvent st'
                 \<lparr>event_type = USS_LOCKDOWN, event_session_id = sid, user_involved = None,
                  details = LockdownFailedDetails error\<rparr>))"

datatype service_error = SessionNotFound

definition incrementWrongAttempts ::
  "collaborators \<Rightarrow> state \<Rightarrow> nat \<Rightarrow> service_error + (nat \<times> state)" where
  "incrementWrongAttempts env st sid =
     (case ultra_secure_sessions st sid of
        None \<Rightarrow> Inl SessionNotFound
      | Some session \<Rightarrow>
          (let newAttempts = wrong_attempts session + 1;
               st1 = update_session st sid (\<lambda>s. s\<lparr>wrong_attempts := newAttempts\<rparr>);
               st2 = logSecurityEvent st1
                       \<lparr>event_type = USS_ACCESS_DENIED, event_session_id = sid,
                        user_involved = None, details = AttemptsDetails newAttempts\<rparr>;
               st3 = (if newAttempts \<ge> 3 then activateLockdown env st2 sid else st2)
           in Inr (newAttempts, st3)))"

definition resetWrongAttempts :: "collaborators \<Rightarrow> state \<Rightarrow> nat \<Rightarrow> state" where
  "resetWrongAttempts env st sid =
     (let st1 = update_session st sid
                  (\<lambda>s. s\<lparr>wrong_attempts := 0, last_access := Some (now env)\<rparr>)
      in logSecurityEvent st1
           \<lparr>event_type = USS_ACCESSED, event_session_id = sid, user_involved = None,
            details = AccessedDetails\<rparr>)"

text \<open>
  The handler of \<^verbatim>\<open>POST /api/uss/:sessionId/verify\<close>, the operation the specification
  calls \<^verbatim>\<open>recordAttempt(sessionId, success)\<close>. The responses are: 200 with
  \<^verbatim>\<open>success: true\<close> and \<^verbatim>\<open>attemptsRemaining\<close>; 200 with \<^verbatim>\<open>success: false\<close> and
  \<^verbatim>\<open>attemptsRemaining\<close>; 403 with \<^verbatim>\<open>locked: true\<close>; 500 from the \<^verbatim>\<open>catch\<close>.
\<close>

datatype verify_response =
    AccessGranted nat | IncorrectPassphrase nat | SessionLockedResponse | VerificationFailed

definition verify_route ::
  "collaborators \<Rightarrow> state \<Rightarrow> nat \<Rightarrow> bool \<Rightarrow> verify_response \<times> state" where
  "verify_route env st sid success =
     (if success then (AccessGranted 3, resetWrongAttempts env st sid)
      else case incrementWrongAttempts env st sid of
             Inl _ \<Rightarrow> (VerificationFailed, st)
           | Inr (newAttempts, st') \<Rightarrow>
               (if newAttempts \<ge> 3 then (SessionLockedResponse, st')
                else (IncorrectPassphrase (max 0 (3 - newAttempts)), st')))"

text \<open>A run of attempts against one session, each with its own collaborators.\<close>

fun verify_all ::
  "state \<Rightarrow> nat \<Rightarrow> (collaborators \<times> bool) list \<Rightarrow> verify_response list \<times> state" where
  "verify_all st sid [] = ([], st)"
| "verify_all st sid ((env, success) # rest) =
     (case verify_route env st sid success of
        (r, st') \<Rightarrow> (case verify_all st' sid rest of (rs, st'') \<Rightarrow> (r # rs, st'')))"

text \<open>The number of times the lockdown was entered for a session, read off the log.\<close>

definition lockdown_events :: "state \<Rightarrow> nat \<Rightarrow> nat" where
  "lockdown_events st sid =
     length (filter (\<lambda>e. event_type e = USS_LOCKDOWN \<and> event_session_id e = sid)
               (security_events st))"

text \<open>
  The lockdown runs to its last step when none of its calls to storage and to the
  archiver rejects; mail delivery is not among them.
\<close>

definition lockdown_completes :: "collaborators \<Rightarrow> bool" where
  "lockdown_completes env \<longleftrightarrow>
     \<not> export_fails env \<and> \<not> zip_fails env \<and> \<not> delete_fails env \<and> \<not> update_fails env"

subsection \<open>A session, a message and collaborators to run the service on\<close>

definition alice_bob :: uss_session where
  "alice_bob =
     \<lparr>session_id = 1, user_a = ''alice'', user_b = ''bob'',
      user_a_email = ''alice@example.com'', user_b_email = ''bob@example.com'',
      double_encrypted_key_a = ''wrappedA'', double_encrypted_key_b = ''wrappedB'',
      passphrase_hash = ''verifier'', salt = ''salt'', iv_a = ''ivA'', iv_b = ''ivB'',
      wrong_attempts = 0, status = ACTIVE, created_at = 10,
      last_access = None, locked_at = None\<rparr>"

definition hello :: uss_message where
  "hello =
     \<lparr>msg_id = 1, uss_session_id = 1, sender = ''alice'', receiver = ''bob'',
      content = ''ciphertext'', msg_no = Some 1000, signature = None, verified = False,
      timestamp = 20\<rparr>"

definition st0 :: state where
  "st0 = \<lparr>ultra_secure_sessions = [1 \<mapsto> alice_bob], uss_messages = [hello],
          security_events = [], sent_emails = []\<rparr>"

definition reliable :: collaborators where
  "reliable = \<lparr>now = 100, export_fails = False, zip_fails = False,
               mail_delivers = (\<lambda>_. True), delete_fails = False, update_fails = False\<rparr>"

definition st_locked :: state where
  "st_locked = snd (verify_all st0 1 [(reliable, False), (reliable, False), (reliable, False)])"

definition bob_bounces :: collaborators where
  "bob_bounces = reliable\<lparr>mail_delivers := (\<lambda>address. address = ''alice@example.com'')\<rparr>"

definition export_rejected :: collaborators where
  "export_rejected = reliable\<lparr>export_fails := True\<rparr>"

definition delete_rejected :: collaborators where
  "delete_rejected = reliable\<lparr>delete_fails := True\<rparr>"

definition update_rejected :: collaborators where
  "update_rejected = reliable\<lparr>update_fails := True\<rparr>"

section \<open>Signature verification on the server\<close>

text \<open>
  \<^verbatim>\<open>services/signatureService.js\<close>. Node's \<^verbatim>\<open>crypto\<close> module is a parameter: importing a
  PEM key, decoding base64 into a buffer, and \<^verbatim>\<open>verify.verify\<close> over SHA-256 of the
  message with the \<^verbatim>\<open>dsaEncoding\<close> it is given (\<^verbatim>\<open>'der'\<close> when the call names none). A
  call that throws returns \<^const>\<open>None\<close>.
\<close>

type_synonym byte = "8 word"

datatype dsaEncoding = IEEE_P1363 | DER

record 'key node_crypto =
  createPublicKey :: "string \<Rightarrow> 'key option"
  buffer_from_base64 :: "string \<Rightarrow> byte list"
  verify :: "dsaEncoding \<Rightarrow> 'key \<Rightarrow> string \<Rightarrow> byte list \<Rightarrow> bool option"

text \<open>
  The \<^verbatim>\<open>users\<close> table as \<^verbatim>\<open>getSigningKey\<close> reads it: the nullable column
  \<^verbatim>\<open>signature_key_public\<close> by user name, and whether the query rejects.
\<close>

record users_table =
  signature_key_public :: "string \<rightharpoonup> string option"
  query_fails :: bool

datatype query_error = QueryError

text \<open>\<^verbatim>\<open>rows[0]?.signature_key_public || null\<close>: no row, a null and the empty string all give null.\<close>

definition getSigningKey :: "users_table \<Rightarrow> string \<Rightarrow> query_error + string option" where
  "getSigningKey users username =
     (if query_fails users then Inl QueryError
      else Inr (case signature_key_public users username of
                  None \<Rightarrow> None
                | Some None \<Rightarrow> None
                | Some (Some pem) \<Rightarrow> (if pem = [] then None else Some pem)))"

text \<open>
  \<^verbatim>\<open>verifyMessageSignature\<close>, returning beside its result the encodings it passed to
  \<^verbatim>\<open>verify.verify\<close>, in order. The outer \<^verbatim>\<open>catch\<close> turns every exception into
  \<^verbatim>\<open>false\<close>; the inner one, around the first verification, starts the second.
\<close>

definition verifyMessageSignature_run ::
  "'key node_crypto \<Rightarrow> users_table \<Rightarrow> string \<Rightarrow> string \<Rightarrow> string \<Rightarrow> bool \<times> dsaEncoding list" where
  "verifyMessageSignature_run C users senderUsername message signatureBase64 =
     (case getSigningKey users senderUsername of
        Inl error \<Rightarrow> (False, [])
      | Inr None \<Rightarrow> (False, [])
      | Inr (Some publicKeyPem) \<Rightarrow>
          (case createPublicKey C publicKeyPem of
             None \<Rightarrow> (False, [])
           | Some publicKey \<Rightarrow>
               (let signatureBuffer = buffer_from_base64 C signatureBase64 in
                case verify C IEEE_P1363 publicKey message signatureBuffer of
                  Some isValid \<Rightarrow> (isValid, [IEEE_P1363])
                | None \<Rightarrow>
                    (case verify C DER publicKey message signatureBuffer of
                       Some isValid \<Rightarrow> (isValid, [IEEE_P1363, DER])
                     | None \<Rightarrow> (False, [IEEE_P1363, DER])))))"

definition verifyMessageSignature ::
  "'key node_crypto \<Rightarrow> users_table \<Rightarrow> string \<Rightarrow> string \<Rightarrow> string \<Rightarrow> bool" where
  "verifyMessageSignature C users senderUsername message signatureBase64 =
     fst (verifyMessageSignature_run C users senderUsername message signatureBase64)"

definition encodings_tried ::
  "'key node_crypto \<Rightarrow> users_table \<Rightarrow> string \<Rightarrow> string \<Rightarrow> string \<Rightarrow> dsaEncoding list" where
  "encodings_tried C users senderUsername message signatureBase64 =
     snd (verifyMessageSignature_run C users senderUsername message signatureBase64)"

text \<open>
  The value of \<^verbatim>\<open>verified\<close> in the handler of \<^verbatim>\<open>POST /\<close> of
  \<^verbatim>\<open>routes/ussMessageRoutes.js\<close>: \<^verbatim>\<open>false\<close> unless the request carries a truthy
  signature, then what \<^verbatim>\<open>verifyMessageSignature\<close> returns.
\<close>

definition uss_message_verified ::
  "'key node_crypto \<Rightarrow> users_table \<Rightarrow> string \<Rightarrow> string \<Rightarrow> string option \<Rightarrow> bool" where
  "uss_message_verified C users senderUsername message signatureBase64 =
     (case signatureBase64 of
        None \<Rightarrow> False
      | Some s \<Rightarrow>
          (if s = [] then False else verifyMessageSignature C users senderUsername message s))"

text \<open>The three outcomes the specification names for a verification.\<close>

datatype verification_outcome = Valid | Invalid | Unsigned

subsection \<open>A key store and a stand-in for Node's crypto to run the verifier on\<close>

text \<open>
  The stand-in has no cryptographic strength. Its raw-encoding check throws on a
  signature that is not 64 bytes long, as Node does on a malformed signature, and
  its DER check accepts one fixed signature for each key and message.
\<close>

definition sample_node :: "string node_crypto" where
  "sample_node =
     \<lparr>createPublicKey = (\<lambda>pem. if pem = ''not a key'' then None else Some pem),
      buffer_from_base64 = map of_char,
      verify = (\<lambda>encoding publicKey message signatureBuffer.
         case encoding of
           IEEE_P1363 \<Rightarrow>
             (if length signatureBuffer = 64
              then Some (signatureBuffer =
                           map of_char (take 64 (publicKey @ message @ replicate 64 CHR ''='')))
              else None)
         | DER \<Rightarrow> Some (signatureBuffer = map of_char (''der:'' @ publicKey @ '':'' @ message)))\<rparr>"

definition alice_only :: users_table where
  "alice_only = \<lparr>signature_key_public = [''alice'' \<mapsto> Some ''alicekey''], query_fails = False\<rparr>"

definition raw_signature :: string where
  "raw_signature = take 64 (''alicekey'' @ ''hello'' @ replicate 64 CHR ''='')"

section \<open>The client's cryptography\<close>

text \<open>
  \<^verbatim>\<open>client/src/lib/crypto.js\<close>. A JavaScript string is a list of UTF-16 code units; a
  \<^verbatim>\<open>Uint8Array\<close> or \<^verbatim>\<open>ArrayBuffer\<close> is a list of bytes.
\<close>

type_synonym code_unit = "16 word"
type_synonym jsstring = "code_unit list"

text \<open>A string literal of the source, character by character.\<close>

definition js :: "string \<Rightarrow> jsstring" where
  "js s = map of_char s"

subsection \<open>\<^verbatim>\<open>btoa\<close> and \<^verbatim>\<open>atob\<close>\<close>

text \<open>
  The browser's base64 functions, after the encoding and the forgiving decoding of the
  WHATWG Infra standard. \<^verbatim>\<open>btoa\<close> throws on a code unit above 255. \<^verbatim>\<open>atob\<close> drops
  ASCII whitespace, drops one or two trailing \<^verbatim>\<open>=\<close> when the length is a multiple of
  four, and throws when the remaining length is 1 modulo 4 or a character is outside
  the alphabet.
\<close>

datatype dom_exception = InvalidCharacterError | DataError | OperationError

definition b64_char :: "nat \<Rightarrow> code_unit" where
  "b64_char n =
     (if n < 26 then of_nat (65 + n)
      else if n < 52 then of_nat (71 + n)
      else if n < 62 then of_nat (n - 4)
      else if n = 62 then 43
      else 47)"

definition b64_value :: "code_unit \<Rightarrow> nat option" where
  "b64_value c =
     (if 65 \<le> c \<and> c \<le> 90 then Some (unat c - 65)
      else if 97 \<le> c \<and> c \<le> 122 then Some (unat c - 71)
      else if 48 \<le> c \<and> c \<le> 57 then Some (unat c + 4)
      else if c = 43 then Some 62
      else if c = 47 then Some 63
      else None)"

text \<open>Three bytes are four groups of six bits; one or two bytes at the end are two or three.\<close>

fun sextets :: "byte list \<Rightarrow> nat list" where
  "sextets (a # b # c # rest) =
     [unat a div 4, (unat a mod 4) * 16 + unat b div 16,
      (unat b mod 16) * 4 + unat c div 64, unat c mod 64] @ sextets rest"
| "sextets [a, b] =
     [unat a div 4, (unat a mod 4) * 16 + unat b div 16, (unat b mod 16) * 4]"
| "sextets [a] = [unat a div 4, (unat a mod 4) * 16]"
| "sextets [] = []"

definition btoa :: "jsstring \<Rightarrow> dom_exception + jsstring" where
  "btoa s =
     (if list_ex (\<lambda>c. c > 255) s then Inl InvalidCharacterError
      else Inr (map b64_char (sextets (map ucast s)) @
                replicate ((3 - length s mod 3) mod 3) 61))"

definition ascii_whitespace :: "code_unit \<Rightarrow> bool" where
  "ascii_whitespace c \<longleftrightarrow> c = 9 \<or> c = 10 \<or> c = 12 \<or> c = 13 \<or> c = 32"

definition remove_padding :: "jsstring \<Rightarrow> jsstring" where
  "remove_padding data =
     (case rev data of
        c1 # c2 # r \<Rightarrow> (if c1 = 61 then (if c2 = 61 then rev r else rev (c2 # r)) else data)
      | [c1] \<Rightarrow> (if c1 = 61 then [] else data)
      | [] \<Rightarrow> data)"

text \<open>
  Four groups of six bits are three bytes; of three groups at the end the last two
  bits are dropped, of two the last four.
\<close>

fun octets :: "nat list \<Rightarrow> byte list" where
  "octets (s1 # s2 # s3 # s4 # rest) =
     [of_nat (s1 * 4 + s2 div 16), of_nat ((s2 mod 16) * 16 + s3 div 4),
      of_nat ((s3 mod 4) * 64 + s4)] @ octets rest"
| "octets [s1, s2, s3] = [of_nat (s1 * 4 + s2 div 16), of_nat ((s2 mod 16) * 16 + s3 div 4)]"
| "octets [s1, s2] = [of_nat (s1 * 4 + s2 div 16)]"
| "octets [s1] = []"
| "octets [] = []"

definition atob :: "jsstring \<Rightarrow> dom_exception + jsstring" where
  "atob s =
     (let data = filter (\<lambda>c. \<not> ascii_whitespace c) s;
          data = (if length data mod 4 = 0 then remove_padding data else data)
      in if length data mod 4 = 1 then Inl InvalidCharacterError
         else case those (map b64_value data) of
                None \<Rightarrow> Inl InvalidCharacterError
              | Some values \<Rightarrow> Inr (map ucast (octets values)))"

subsection \<open>The helpers of \<^verbatim>\<open>crypto.js\<close>\<close>

text \<open>
  \<^verbatim>\<open>arrayBufferToBase64\<close> builds the binary string with \<^verbatim>\<open>String.fromCharCode\<close> of each
  byte and hands it to \<^verbatim>\<open>btoa\<close>; \<^verbatim>\<open>base64ToUint8Array\<close> reads \<^verbatim>\<open>charCodeAt\<close> of
  \<^verbatim>\<open>atob\<close>'s result into bytes.
\<close>

definition arrayBufferToBase64 :: "byte list \<Rightarrow> dom_exception + jsstring" where
  "arrayBufferToBase64 buf = btoa (map ucast buf)"

definition base64ToUint8Array :: "jsstring \<Rightarrow> dom_exception + byte list" where
  "base64ToUint8Array base64 =
     (case atob base64 of
        Inl e \<Rightarrow> Inl e
      | Inr binary \<Rightarrow> Inr (map ucast binary))"

subsection \<open>\<^verbatim>\<open>TextEncoder\<close> and \<^verbatim>\<open>TextDecoder\<close>\<close>

text \<open>
  The UTF-8 codec of \<^verbatim>\<open>new TextEncoder()\<close> and \<^verbatim>\<open>new TextDecoder()\<close>, after the WHATWG
  Encoding standard. \<^verbatim>\<open>encode\<close> reads its argument as a string of scalar values: a high
  surrogate followed by a low surrogate is one code point, and every other surrogate
  is replaced by U+FFFD.
\<close>

definition high_surrogate :: "code_unit \<Rightarrow> bool" where
  "high_surrogate c \<longleftrightarrow> 0xD800 \<le> c \<and> c \<le> 0xDBFF"

definition low_surrogate :: "code_unit \<Rightarrow> bool" where
  "low_surrogate c \<longleftrightarrow> 0xDC00 \<le> c \<and> c \<le> 0xDFFF"

fun scalar_values :: "jsstring \<Rightarrow> nat list" where
  "scalar_values (c # d # rest) =
     (if high_surrogate c \<and> low_surrogate d
      then (0x10000 + (unat c - 0xD800) * 0x400 + (unat d - 0xDC00)) # scalar_values rest
      else (if high_surrogate c \<or> low_surrogate c then 0xFFFD else unat c) #
           scalar_values (d # rest))"
| "scalar_values [c] = [if high_surrogate c \<or> low_surrogate c then 0xFFFD else unat c]"
| "scalar_values [] = []"

text \<open>The one to four bytes of a scalar value.\<close>

definition utf8_bytes :: "nat \<Rightarrow> byte list" where
  "utf8_bytes cp =
     (if cp < 0x80 then [of_nat cp]
      else if cp < 0x800 then [of_nat (0xC0 + cp div 0x40), of_nat (0x80 + cp mod 0x40)]
      else if cp < 0x10000
        then [of_nat (0xE0 + cp div 0x1000), of_nat (0x80 + cp div 0x40 mod 0x40),
              of_nat (0x80 + cp mod 0x40)]
      else [of_nat (0xF0 + cp div 0x40000), of_nat (0x80 + cp div 0x1000 mod 0x40),
            of_nat (0x80 + cp div 0x40 mod 0x40), of_nat (0x80 + cp mod 0x40)])"

definition TextEncoder_encode :: "jsstring \<Rightarrow> byte list" where
  "TextEncoder_encode input = concat (map utf8_bytes (scalar_values input))"

text \<open>
  The decoder of the standard, on the values of the bytes. Its state is the number of
  continuation bytes still needed (the standard's bytes needed less bytes seen), the
  code point read so far, and the bounds on the next continuation byte. A byte that
  cannot start or continue a sequence gives U+FFFD; a byte that cannot continue one is
  read again as the start of the next. The input ending inside a sequence gives U+FFFD.
\<close>

fun utf8_decoder :: "nat \<Rightarrow> nat \<Rightarrow> nat \<Rightarrow> nat \<Rightarrow> nat list \<Rightarrow> nat list" where
  "utf8_decoder needed cp lower upper [] = (if needed = 0 then [] else [0xFFFD])"
| "utf8_decoder needed cp lower upper (b # bytes) =
     (if needed = 0 then
        (if b \<le> 0x7F then b # utf8_decoder 0 0 0x80 0xBF bytes
         else if 0xC2 \<le> b \<and> b \<le> 0xDF then utf8_decoder 1 (b mod 0x20) 0x80 0xBF bytes
         else if 0xE0 \<le> b \<and> b \<le> 0xEF
           then utf8_decoder 2 (b mod 0x10)
                  (if b = 0xE0 then 0xA0 else 0x80) (if b = 0xED then 0x9F else 0xBF) bytes
         else if 0xF0 \<le> b \<and> b \<le> 0xF4
           then utf8_decoder 3 (b mod 8)
                  (if b = 0xF0 then 0x90 else 0x80) (if b = 0xF4 then 0x8F else 0xBF) bytes
         else 0xFFFD # utf8_decoder 0 0 0x80 0xBF bytes)
      else if b < lower \<or> upper < b then 0xFFFD # utf8_decoder 0 0 0x80 0xBF (b # bytes)
      else if needed = 1 then (cp * 0x40 + b mod 0x40) # utf8_decoder 0 0 0x80 0xBF bytes
      else utf8_decoder (needed - 1) (cp * 0x40 + b mod 0x40) 0x80 0xBF bytes)"

text \<open>A scalar value as one code unit, or as a surrogate pair from U+10000 on.\<close>

definition code_units :: "nat \<Rightarrow> jsstring" where
  "code_units cp =
     (if cp < 0x10000 then [of_nat cp]
      else [of_nat (0xD800 + (cp - 0x10000) div 0x400),
            of_nat (0xDC00 + (cp - 0x10000) mod 0x400)])"

text \<open>
  \<^verbatim>\<open>decode\<close> of a decoder made without options: not fatal, so errors are replaced, and
  \<^verbatim>\<open>ignoreBOM\<close> false, so the three bytes EF BB BF at the start are dropped.
\<close>

definition TextDecoder_decode :: "byte list \<Rightarrow> jsstring" where
  "TextDecoder_decode input =
     (let bytes = map unat input;
          bytes = (if take 3 bytes = [0xEF, 0xBB, 0xBF] then drop 3 bytes else bytes)
      in concat (map code_units (utf8_decoder 0 0 0x80 0xBF bytes)))"

subsection \<open>The Web Crypto API\<close>

text \<open>
  The primitives the client calls are parameters: \<^verbatim>\<open>TextEncoder\<close> and \<^verbatim>\<open>TextDecoder\<close>,
  the SHA-256 digest, HMAC-SHA-256 (key, data), AES-GCM encryption and decryption (key,
  IV, data; decryption returns \<^const>\<open>None\<close> where it throws \<^verbatim>\<open>OperationError\<close>), and
  PBKDF2 with HMAC-SHA-512 (password, salt, iterations, bits). \<^verbatim>\<open>deriveKey\<close> from
  PBKDF2 to an AES-GCM key of 256 bits is, by the API's definition, \<^verbatim>\<open>deriveBits\<close> of
  256 bits followed by a raw import. A \<^verbatim>\<open>CryptoKey\<close> is its algorithm and its key
  material.
\<close>

record webcrypto =
  text_encode :: "jsstring \<Rightarrow> byte list"
  text_decode :: "byte list \<Rightarrow> jsstring"
  digest_sha256 :: "byte list \<Rightarrow> byte list"
  hmac_sha256 :: "byte list \<Rightarrow> byte list \<Rightarrow> byte list"
  aes_gcm_encrypt :: "byte list \<Rightarrow> byte list \<Rightarrow> byte list \<Rightarrow> byte list"
  aes_gcm_decrypt :: "byte list \<Rightarrow> byte list \<Rightarrow> byte list \<Rightarrow> byte list option"
  pbkdf2_sha512 :: "byte list \<Rightarrow> byte list \<Rightarrow> nat \<Rightarrow> nat \<Rightarrow> byte list"

datatype crypto_key = HmacKey "byte list" | AesGcmKey "byte list" | Pbkdf2Key "byte list"

fun key_material :: "crypto_key \<Rightarrow> byte list" where
  "key_material (HmacKey k) = k"
| "key_material (AesGcmKey k) = k"
| "key_material (Pbkdf2Key k) = k"

text \<open>
  \<^verbatim>\<open>importKey('raw', ...)\<close>: an HMAC key must not be empty, an AES key must be 128, 192
  or 256 bits long; otherwise the call throws \<^verbatim>\<open>DataError\<close>.
\<close>

definition importKey_hmac :: "byte list \<Rightarrow> dom_exception + crypto_key" where
  "importKey_hmac keyData = (if keyData = [] then Inl DataError else Inr (HmacKey keyData))"

definition importKey_aes_gcm :: "byte list \<Rightarrow> dom_exception + crypto_key" where
  "importKey_aes_gcm keyData =
     (if length keyData \<in> {16, 24, 32} then Inr (AesGcmKey keyData) else Inl DataError)"

subsection \<open>Session key and message encryption\<close>

text \<open>
  \<^verbatim>\<open>[userA, userB].sort()\<close> orders by code units, the lexicographic order on
  \<^typ>\<open>jsstring\<close>; \<^verbatim>\<open>join(':')\<close> puts the separator between the elements.
\<close>

fun join :: "jsstring \<Rightarrow> jsstring list \<Rightarrow> jsstring" where
  "join separator [] = []"
| "join separator [x] = x"
| "join separator (x # y # rest) = x @ separator @ join separator (y # rest)"

definition getSessionKey :: "webcrypto \<Rightarrow> jsstring \<Rightarrow> jsstring \<Rightarrow> byte list" where
  "getSessionKey P usernameA usernameB =
     (let sorted = join (js '':'') (sort [usernameA, usernameB])
      in digest_sha256 P (text_encode P sorted))"

text \<open>
  The message number. Every caller passes \<^verbatim>\<open>Date.now()\<close> to \<^verbatim>\<open>encryptMessage\<close> and the
  number stored from it to \<^verbatim>\<open>decryptMessage\<close>: a non-negative integer below \<^verbatim>\<open>2^53\<close>.
  On these \<^verbatim>\<open>String(msgNo)\<close> is the decimal digits; the exponent notation of
  \<^verbatim>\<open>Number::toString\<close> begins at \<^verbatim>\<open>10^21\<close>, above every number of the type.
\<close>

type_synonym safe_integer = "53 word"

fun decimal_digits :: "nat \<Rightarrow> jsstring" where
  "decimal_digits n =
     (if n < 10 then [of_nat (48 + n)]
      else decimal_digits (n div 10) @ [of_nat (48 + n mod 10)])"

definition js_String :: "safe_integer \<Rightarrow> jsstring" where
  "js_String msgNo = decimal_digits (unat msgNo)"

definition deriveMessageKey ::
  "webcrypto \<Rightarrow> byte list \<Rightarrow> safe_integer \<Rightarrow> dom_exception + crypto_key" where
  "deriveMessageKey P sessionKeyRaw msgNo =
     (let msgNoBytes = text_encode P (js_String msgNo) in
      case importKey_hmac sessionKeyRaw of
        Inl e \<Rightarrow> Inl e
      | Inr hmacKey \<Rightarrow>
          (let hmacSignature = hmac_sha256 P (key_material hmacKey) msgNoBytes
           in importKey_aes_gcm (take 32 hmacSignature)))"

text \<open>
  \<^verbatim>\<open>encryptMessage\<close>. \<^verbatim>\<open>randomValues\<close> is what \<^verbatim>\<open>crypto.getRandomValues\<close> wrote into the
  12-byte array.
\<close>

definition encryptMessage ::
  "webcrypto \<Rightarrow> byte list \<Rightarrow> byte list \<Rightarrow> safe_integer \<Rightarrow> jsstring \<Rightarrow>
     dom_exception + jsstring" where
  "encryptMessage P randomValues sessionKeyRaw msgNo plaintext =
     (case deriveMessageKey P sessionKeyRaw msgNo of
        Inl e \<Rightarrow> Inl e
      | Inr aesKey \<Rightarrow>
          (let ivBytes = randomValues;
               data = text_encode P plaintext;
               cipherBuf = aes_gcm_encrypt P (key_material aesKey) ivBytes data;
               combined = ivBytes @ cipherBuf
           in arrayBufferToBase64 combined))"

definition decryptMessage ::
  "webcrypto \<Rightarrow> byte list \<Rightarrow> safe_integer \<Rightarrow> jsstring \<Rightarrow> dom_exception + jsstring" where
  "decryptMessage P sessionKeyRaw msgNo base64Cipher =
     (case deriveMessageKey P sessionKeyRaw msgNo of
        Inl e \<Rightarrow> Inl e
      | Inr aesKey \<Rightarrow>
          (case base64ToUint8Array base64Cipher of
             Inl e \<Rightarrow> Inl e
           | Inr combined \<Rightarrow>
               (let ivBytes = take 12 combined;
                    cipher = drop 12 combined
                in case aes_gcm_decrypt P (key_material aesKey) ivBytes cipher of
                     None \<Rightarrow> Inl OperationError
                   | Some plainBuf \<Rightarrow> Inr (text_decode P plainBuf))))"

subsection \<open>Passphrase protection\<close>

definition derivePassphraseKey :: "webcrypto \<Rightarrow> jsstring \<Rightarrow> byte list \<Rightarrow> crypto_key" where
  "derivePassphraseKey P passphrase saltBytes =
     (let passphraseKey = Pbkdf2Key (text_encode P passphrase)
      in AesGcmKey (pbkdf2_sha512 P (key_material passphraseKey) saltBytes 310000 256))"

definition encryptWithPassphrase ::
  "webcrypto \<Rightarrow> byte list \<Rightarrow> byte list \<Rightarrow> jsstring \<Rightarrow> byte list \<Rightarrow>
     dom_exception + (jsstring \<times> jsstring)" where
  "encryptWithPassphrase P randomValues data passphrase saltBytes =
     (let passphraseKey = derivePassphraseKey P passphrase saltBytes;
          ivBytes = randomValues;
          encrypted = aes_gcm_encrypt P (key_material passphraseKey) ivBytes data
      in case arrayBufferToBase64 encrypted of
           Inl e \<Rightarrow> Inl e
         | Inr encryptedBase64 \<Rightarrow>
             (case arrayBufferToBase64 ivBytes of
                Inl e \<Rightarrow> Inl e
              | Inr ivBase64 \<Rightarrow> Inr (encryptedBase64, ivBase64)))"

definition decryptWithPassphrase ::
  "webcrypto \<Rightarrow> jsstring \<Rightarrow> jsstring \<Rightarrow> jsstring \<Rightarrow> byte list \<Rightarrow> dom_exception + byte list" where
  "decryptWithPassphrase P encryptedBase64 ivBase64 passphrase saltBytes =
     (let passphraseKey = derivePassphraseKey P passphrase saltBytes
      in case base64ToUint8Array encryptedBase64 of
           Inl e \<Rightarrow> Inl e
         | Inr encrypted \<Rightarrow>
             (case base64ToUint8Array ivBase64 of
                Inl e \<Rightarrow> Inl e
              | Inr ivBytes \<Rightarrow>
                  (case aes_gcm_decrypt P (key_material passphraseKey) ivBytes encrypted of
                     None \<Rightarrow> Inl OperationError
                   | Some decrypted \<Rightarrow> Inr decrypted)))"

definition hashPassphrase :: "webcrypto \<Rightarrow> jsstring \<Rightarrow> byte list \<Rightarrow> dom_exception + jsstring" where
  "hashPassphrase P passphrase saltBytes =
     (let passphraseKey = Pbkdf2Key (text_encode P passphrase);
          hashBits = pbkdf2_sha512 P (key_material passphraseKey) saltBytes 310000 256
      in arrayBufferToBase64 hashBits)"

text \<open>
  Not a function of the repository: what a holder of the stored verifier, ciphertext
  and IV can compute without the passphrase. It decodes the verifier, imports the
  bytes as the AES-GCM key and decrypts.
\<close>

definition unwrap_with_verifier ::
  "webcrypto \<Rightarrow> jsstring \<Rightarrow> jsstring \<Rightarrow> jsstring \<Rightarrow> dom_exception + byte list" where
  "unwrap_with_verifier P encryptedBase64 ivBase64 verifier =
     (case base64ToUint8Array verifier of
        Inl e \<Rightarrow> Inl e
      | Inr keyBytes \<Rightarrow>
          (case base64ToUint8Array encryptedBase64 of
             Inl e \<Rightarrow> Inl e
           | Inr encrypted \<Rightarrow>
               (case base64ToUint8Array ivBase64 of
                  Inl e \<Rightarrow> Inl e
                | Inr ivBytes \<Rightarrow>
                    (case aes_gcm_decrypt P keyBytes ivBytes encrypted of
                       None \<Rightarrow> Inl OperationError
                     | Some decrypted \<Rightarrow> Inr decrypted))))"

subsection \<open>Passphrase strength\<close>

datatype strength = weak | medium | strong

record strength_result =
  valid :: bool
  strength :: strength
  score :: nat
  errors :: "string list"

text \<open>
  The characters of the class \<^verbatim>\<open>[!@#$%^&*()_+\-=\[\]{};':"\\|,.<>\/?]\<close>, by code, in
  the order of the regular expression.
\<close>

definition special_characters :: jsstring where
  "special_characters =
     [33, 64, 35, 36, 37, 94, 38, 42, 40, 41, 95, 43, 45, 61, 91, 93, 123, 125, 59, 39, 58, 34,
      92, 124, 44, 46, 60, 62, 47, 63]"

text \<open>
  \<^verbatim>\<open>validatePassphraseStrength\<close>: the five checks in the order of the source, each
  either pushing its message or adding to the score.
\<close>

definition validatePassphraseStrength :: "jsstring \<Rightarrow> strength_result" where
  "validatePassphraseStrength passphrase =
     (let (errors1, score1) =
            (if length passphrase < 10 then ([''Must be at least 10 characters''], 0)
             else ([], 20 + (if length passphrase \<ge> 15 then 20 else 0)
                          + (if length passphrase \<ge> 20 then 10 else 0)));
          (errors2, score2) =
            (if \<not> list_ex (\<lambda>c. 48 \<le> c \<and> c \<le> 57) passphrase
             then (errors1 @ [''Must contain at least one number''], score1)
             else (errors1, score1 + 15));
          (errors3, score3) =
            (if \<not> list_ex (\<lambda>c. c \<in> set special_characters) passphrase
             then (errors2 @ [''Must contain at least one special character''], score2)
             else (errors2, score2 + 15));
          (errors4, score4) =
            (if \<not> list_ex (\<lambda>c. 65 \<le> c \<and> c \<le> 90) passphrase
             then (errors3 @ [''Must contain at least one uppercase letter''], score3)
             else (errors3, score3 + 10));
          (errors5, score5) =
            (if \<not> list_ex (\<lambda>c. 97 \<le> c \<and> c \<le> 122) passphrase
             then (errors4 @ [''Must contain at least one lowercase letter''], score4)
             else (errors4, score4 + 10));
          strength = (if score5 \<ge> 80 then strong else if score5 \<ge> 60 then medium else weak)
      in \<lparr>valid = (length errors5 = 0), strength = strength, score = score5, errors = errors5\<rparr>)"

subsection \<open>A stand-in for the Web Crypto API, a key, an IV and a salt\<close>

text \<open>
  The stand-in has no cryptographic strength; it is there to run the functions. Its
  text codec maps a code unit to a byte, its MAC and its key derivation return the
  first 32 bytes of their inputs, and its cipher appends the first 16 bytes of the key
  as a tag and checks the tag on decryption.
\<close>

definition stand_in :: webcrypto where
  "stand_in =
     \<lparr>text_encode = map ucast,
      text_decode = map ucast,
      digest_sha256 = (\<lambda>data. take 32 (data @ replicate 32 0)),
      hmac_sha256 = (\<lambda>key data. take 32 (data @ key @ replicate 32 0)),
      aes_gcm_encrypt = (\<lambda>key ivBytes data. data @ take 16 (key @ replicate 16 0)),
      aes_gcm_decrypt = (\<lambda>key ivBytes data.
         if 16 \<le> length data \<and> drop (length data - 16) data = take 16 (key @ replicate 16 0)
         then Some (take (length data - 16) data) else None),
      pbkdf2_sha512 = (\<lambda>password saltBytes iterations bits.
         take (bits div 8) (password @ saltBytes @ replicate (bits div 8) 0))\<rparr>"

text \<open>The stand-in with the text codec of the browser.\<close>

definition stand_in_utf8 :: webcrypto where
  "stand_in_utf8 =
     stand_in\<lparr>text_encode := TextEncoder_encode, text_decode := TextDecoder_decode\<rparr>"

definition key0 :: "byte list" where
  "key0 = map of_nat [1..<33]"

definition iv0 :: "byte list" where
  "iv0 = map of_nat [101..<113]"

definition salt0 :: "byte list" where
  "salt0 = map of_nat [201..<233]"


section \<open>Properties of the session service\<close>

lemma log_fields [simp]:
  "ultra_secure_sessions (logSecurityEvent st ev) = ultra_secure_sessions st"
  "uss_messages (logSecurityEvent st ev) = uss_messages st"
  "sent_emails (logSecurityEvent st ev) = sent_emails st"
  by (simp_all add: logSecurityEvent_def)

lemma log_events:
  "security_events (logSecurityEvent st ev) =
     (if event_session_id ev \<in> dom (ultra_secure_sessions st)
      then security_events st @ [ev] else security_events st)"
  by (simp add: logSecurityEvent_def)

lemma update_fields [simp]:
  "uss_messages (update_session st sid f) = uss_messages st"
  "sent_emails (update_session st sid f) = sent_emails st"
  "security_events (update_session st sid f) = security_events st"
  by (simp_all add: update_session_def split: option.split)

lemma update_sessions:
  "ultra_secure_sessions (update_session st sid f) x =
     (if x = sid then map_option f (ultra_secure_sessions st sid) else ultra_secure_sessions st x)"
  by (simp add: update_session_def split: option.split)

lemma update_dom [simp]:
  "dom (ultra_secure_sessions (update_session st sid f)) = dom (ultra_secure_sessions st)"
  by (auto simp add: update_session_def split: option.split)

lemma lockdown_events_log:
  "lockdown_events (logSecurityEvent st ev) sid =
     lockdown_events st sid +
       (if event_session_id ev \<in> dom (ultra_secure_sessions st) \<and> event_type ev = USS_LOCKDOWN
           \<and> event_session_id ev = sid then 1 else 0)"
  by (simp add: lockdown_events_def log_events)

lemma lockdown_events_upd [simp]:
  "lockdown_events (st\<lparr>sent_emails := es\<rparr>) sid = lockdown_events st sid"
  "lockdown_events (st\<lparr>uss_messages := ms\<rparr>) sid = lockdown_events st sid"
  "lockdown_events (update_session st x f) sid = lockdown_events st sid"
  by (simp_all add: lockdown_events_def)

lemma email_backup_fields [simp]:
  "ultra_secure_sessions (snd (email_backup env st sid sd ms)) = ultra_secure_sessions st"
  "uss_messages (snd (email_backup env st sid sd ms)) = uss_messages st"
  "lockdown_events (snd (email_backup env st sid sd ms)) x = lockdown_events st x"
  by (simp_all add: email_backup_def Let_def lockdown_events_log)

lemma wipe_fields [simp]:
  "ultra_secure_sessions (wipe_messages st sid) = ultra_secure_sessions st"
  "sent_emails (wipe_messages st sid) = sent_emails st"
  "uss_messages (wipe_messages st sid) = filter (\<lambda>m. uss_session_id m \<noteq> sid) (uss_messages st)"
  "lockdown_events (wipe_messages st sid) x = lockdown_events st x"
  by (simp_all add: wipe_messages_def Let_def lockdown_events_log)

lemma lock_fields [simp]:
  "uss_messages (lock_session env st sid sd a b) = uss_messages st"
  "sent_emails (lock_session env st sid sd a b) = sent_emails st"
  "ultra_secure_sessions (lock_session env st sid sd a b) x =
     (if x = sid then map_option (\<lambda>s. s\<lparr>status := LOCKED, locked_at := Some (now env)\<rparr>)
                        (ultra_secure_sessions st sid)
      else ultra_secure_sessions st x)"
  by (simp_all add: lock_session_def update_sessions)

lemma lock_lockdown_events [simp]:
  "lockdown_events (lock_session env st sid sd a b) sid =
     lockdown_events st sid + (if sid \<in> dom (ultra_secure_sessions st) then 1 else 0)"
  by (simp add: lock_session_def lockdown_events_log)

lemma lockdown_steps_ok:
  "lockdown_completes env \<Longrightarrow>
   lockdown_steps env st sid sd =
     Inr (lock_session env (wipe_messages (snd (email_backup env st sid sd (exportMessages st sid))) sid)
            sid sd (length (exportMessages st sid))
            (fst (email_backup env st sid sd (exportMessages st sid))))"
  by (simp add: lockdown_steps_def lockdown_completes_def Let_def split: prod.split)

lemma lockdown_steps_fail:
  "\<not> lockdown_completes env \<Longrightarrow>
   \<exists>e st'. lockdown_steps env st sid sd = Inl (e, st') \<and>
      ultra_secure_sessions st' = ultra_secure_sessions st \<and>
      lockdown_events st' sid = lockdown_events st sid"
  by (simp add: lockdown_steps_def lockdown_completes_def Let_def split: prod.split)
     (metis email_backup_fields(1,3) snd_conv)

lemma activateLockdown_sessions:
  "ultra_secure_sessions (activateLockdown env st sid) x =
     (if x = sid \<and> lockdown_completes env
      then map_option (\<lambda>s. s\<lparr>status := LOCKED, locked_at := Some (now env)\<rparr>)
             (ultra_secure_sessions st sid)
      else ultra_secure_sessions st x)"
proof (cases "ultra_secure_sessions st sid")
  case None
  then show ?thesis by (simp add: activateLockdown_def)
next
  case (Some sd)
  show ?thesis
  proof (cases "lockdown_completes env")
    case True
    then show ?thesis using Some by (simp add: activateLockdown_def lockdown_steps_ok)
  next
    case False
    from lockdown_steps_fail [OF False, of st sid sd] obtain e st' where
      "lockdown_steps env st sid sd = Inl (e, st')"
      "ultra_secure_sessions st' = ultra_secure_sessions st" by blast
    then show ?thesis using Some False by (simp add: activateLockdown_def)
  qed
qed

lemma activateLockdown_events:
  "lockdown_events (activateLockdown env st sid) sid =
     lockdown_events st sid + (if sid \<in> dom (ultra_secure_sessions st) then 1 else 0)"
proof (cases "ultra_secure_sessions st sid")
  case None
  then show ?thesis by (simp add: activateLockdown_def dom_def)
next
  case (Some sd)
  then have d: "sid \<in> dom (ultra_secure_sessions st)" by blast
  show ?thesis
  proof (cases "lockdown_completes env")
    case True
    then show ?thesis using Some d by (simp add: activateLockdown_def lockdown_steps_ok)
  next
    case False
    from lockdown_steps_fail [OF False, of st sid sd] obtain e st' where
      "lockdown_steps env st sid sd = Inl (e, st')"
      "ultra_secure_sessions st' = ultra_secure_sessions st"
      "lockdown_events st' sid = lockdown_events st sid" by blast
    then show ?thesis using Some d by (simp add: activateLockdown_def lockdown_events_log)
  qed
qed

lemma increment_result:
  assumes "ultra_secure_sessions st sid = Some s"
  shows "\<exists>st'. incrementWrongAttempts env st sid = Inr (wrong_attempts s + 1, st') \<and>
     ultra_secure_sessions st' sid =
       Some (if 3 \<le> wrong_attempts s + 1 \<and> lockdown_completes env
             then s\<lparr>wrong_attempts := wrong_attempts s + 1, status := LOCKED,
                     locked_at := Some (now env)\<rparr>
             else s\<lparr>wrong_attempts := wrong_attempts s + 1\<rparr>) \<and>
     lockdown_events st' sid =
       lockdown_events st sid + (if 3 \<le> wrong_attempts s + 1 then 1 else 0)"
  using assms domI [of "ultra_secure_sessions st" sid s]
  by (simp add: incrementWrongAttempts_def Let_def activateLockdown_sessions
        activateLockdown_events update_sessions lockdown_events_log)

lemma verify_failed_step:
  assumes "ultra_secure_sessions st sid = Some s"
  shows "fst (verify_route env st sid False) =
           (if 3 \<le> wrong_attempts s + 1 then SessionLockedResponse
            else IncorrectPassphrase (3 - (wrong_attempts s + 1)))"
    and "ultra_secure_sessions (snd (verify_route env st sid False)) sid =
       Some (if 3 \<le> wrong_attempts s + 1 \<and> lockdown_completes env
             then s\<lparr>wrong_attempts := wrong_attempts s + 1, status := LOCKED,
                     locked_at := Some (now env)\<rparr>
             else s\<lparr>wrong_attempts := wrong_attempts s + 1\<rparr>)"
    and "lockdown_events (snd (verify_route env st sid False)) sid =
       lockdown_events st sid + (if 3 \<le> wrong_attempts s + 1 then 1 else 0)"
proof -
  from increment_result [OF assms, of env] obtain st' where
    r: "incrementWrongAttempts env st sid = Inr (wrong_attempts s + 1, st')"
    and s: "ultra_secure_sessions st' sid =
       Some (if 3 \<le> wrong_attempts s + 1 \<and> lockdown_completes env
             then s\<lparr>wrong_attempts := wrong_attempts s + 1, status := LOCKED,
                     locked_at := Some (now env)\<rparr>
             else s\<lparr>wrong_attempts := wrong_attempts s + 1\<rparr>)"
    and l: "lockdown_events st' sid =
       lockdown_events st sid + (if 3 \<le> wrong_attempts s + 1 then 1 else 0)"
    by blast
  show "fst (verify_route env st sid False) =
           (if 3 \<le> wrong_attempts s + 1 then SessionLockedResponse
            else IncorrectPassphrase (3 - (wrong_attempts s + 1)))"
    using r by (simp add: verify_route_def)
  show "ultra_secure_sessions (snd (verify_route env st sid False)) sid =
       Some (if 3 \<le> wrong_attempts s + 1 \<and> lockdown_completes env
             then s\<lparr>wrong_attempts := wrong_attempts s + 1, status := LOCKED,
                     locked_at := Some (now env)\<rparr>
             else s\<lparr>wrong_attempts := wrong_attempts s + 1\<rparr>)"
    using r s by (simp add: verify_route_def)
  show "lockdown_events (snd (verify_route env st sid False)) sid =
       lockdown_events st sid + (if 3 \<le> wrong_attempts s + 1 then 1 else 0)"
    using r l by (simp add: verify_route_def)
qed

lemma verify_all_snoc:
  "verify_all st sid (xs @ [(env, b)]) =
     (fst (verify_all st sid xs) @ [fst (verify_route env (snd (verify_all st sid xs)) sid b)],
      snd (verify_route env (snd (verify_all st sid xs)) sid b))"
  by (induction xs arbitrary: st) (auto split: prod.splits)

lemma ex_less_snoc:
  "(\<exists>i < length (xs @ [x]). P i ((xs @ [x]) ! i)) \<longleftrightarrow>
   (\<exists>i < length xs. P i (xs ! i)) \<or> P (length xs) x"
proof
  assume "\<exists>i < length (xs @ [x]). P i ((xs @ [x]) ! i)"
  then obtain i where i: "i < Suc (length xs)" and p: "P i ((xs @ [x]) ! i)" by auto
  show "(\<exists>i < length xs. P i (xs ! i)) \<or> P (length xs) x"
  proof (cases "i < length xs")
    case True
    then have "P i (xs ! i)" using p by (simp add: nth_append)
    then show ?thesis using True by blast
  next
    case False
    then have "i = length xs" using i by simp
    then show ?thesis using p by simp
  qed
next
  assume "(\<exists>i < length xs. P i (xs ! i)) \<or> P (length xs) x"
  then show "\<exists>i < length (xs @ [x]). P i ((xs @ [x]) ! i)"
  proof
    assume "\<exists>i < length xs. P i (xs ! i)"
    then obtain i where "i < length xs" "P i (xs ! i)" by blast
    then have "i < length (xs @ [x]) \<and> P i ((xs @ [x]) ! i)" by (simp add: nth_append)
    then show ?thesis by blast
  next
    assume "P (length xs) x"
    then have "length xs < length (xs @ [x]) \<and> P (length xs) ((xs @ [x]) ! length xs)" by simp
    then show ?thesis by blast
  qed
qed

lemma lockdown_count_step:
  "(a + n - 2 - (a - 2)) + (if 3 \<le> a + n + 1 then 1 else 0) = a + Suc n - 2 - (a - (2::nat))"
  by (cases "3 \<le> a + n + 1") simp_all

lemma failed_run_any:
  assumes "ultra_secure_sessions st sid = Some s"
  shows "\<exists>s'. ultra_secure_sessions (snd (verify_all st sid (map (\<lambda>env. (env, False)) envs))) sid = Some s' \<and>
           wrong_attempts s' = wrong_attempts s + length envs \<and>
           status s' =
             (if \<exists>i < length envs. 3 \<le> wrong_attempts s + Suc i \<and> lockdown_completes (envs ! i)
              then LOCKED else status s) \<and>
           lockdown_events (snd (verify_all st sid (map (\<lambda>env. (env, False)) envs))) sid =
             lockdown_events st sid + ((wrong_attempts s + length envs - 2) - (wrong_attempts s - 2))"
proof (induction envs rule: rev_induct)
  case Nil
  then show ?case using assms by simp
next
  case (snoc env envs)
  let ?st = "snd (verify_all st sid (map (\<lambda>env. (env, False)) envs))"
  let ?st' = "snd (verify_all st sid (map (\<lambda>env. (env, False)) (envs @ [env])))"
  define A where
    "A \<longleftrightarrow> (\<exists>i < length envs. 3 \<le> wrong_attempts s + Suc i \<and> lockdown_completes (envs ! i))"
  define B where
    "B \<longleftrightarrow> 3 \<le> wrong_attempts s + Suc (length envs) \<and> lockdown_completes env"
  from snoc obtain s' where
    s': "ultra_secure_sessions ?st sid = Some s'"
    and w: "wrong_attempts s' = wrong_attempts s + length envs"
    and t: "status s' = (if A then LOCKED else status s)"
    and l: "lockdown_events ?st sid =
             lockdown_events st sid + ((wrong_attempts s + length envs - 2) - (wrong_attempts s - 2))"
    unfolding A_def by blast
  have e: "(\<exists>i < length (envs @ [env]).
              3 \<le> wrong_attempts s + Suc i \<and> lockdown_completes ((envs @ [env]) ! i)) \<longleftrightarrow> A \<or> B"
    unfolding A_def B_def
    by (rule ex_less_snoc [where P = "\<lambda>i env. 3 \<le> wrong_attempts s + Suc i \<and> lockdown_completes env"])
  have st': "?st' = snd (verify_route env ?st sid False)"
    by (simp add: verify_all_snoc)
  have b: "3 \<le> wrong_attempts s' + 1 \<and> lockdown_completes env \<longleftrightarrow> B"
    by (simp add: B_def w)
  define s'' where "s'' =
    (if 3 \<le> wrong_attempts s' + 1 \<and> lockdown_completes env
     then s'\<lparr>wrong_attempts := wrong_attempts s' + 1, status := LOCKED, locked_at := Some (now env)\<rparr>
     else s'\<lparr>wrong_attempts := wrong_attempts s' + 1\<rparr>)"
  have 1: "ultra_secure_sessions ?st' sid = Some s''"
    unfolding st' s''_def by (rule verify_failed_step(2) [OF s'])
  have 2: "wrong_attempts s'' = wrong_attempts s + length (envs @ [env])"
    by (simp add: s''_def w)
  have "status s'' = (if B then LOCKED else status s')"
    unfolding s''_def b by simp
  then have 3: "status s'' = (if A \<or> B then LOCKED else status s)"
    using t by simp
  have 4: "lockdown_events ?st' sid =
      lockdown_events st sid +
        ((wrong_attempts s + length (envs @ [env]) - 2) - (wrong_attempts s - 2))"
    unfolding st'
    using verify_failed_step(3) [OF s', of env] lockdown_count_step [of "wrong_attempts s" "length envs"]
    by (simp only: w l length_append list.size)  simp
  show ?case unfolding e using 1 2 3 4 by blast
qed

lemmas svc_defs = logSecurityEvent_def update_session_def exportMessages_def lockdown_recipients_def
  email_backup_def wipe_messages_def lock_session_def
  lockdown_steps_def activateLockdown_def incrementWrongAttempts_def resetWrongAttempts_def verify_route_def
  lockdown_events_def

lemmas fix_defs = alice_bob_def hello_def st0_def reliable_def

lemma log_events_prefix:
  "\<exists>evs. security_events (logSecurityEvent st ev) = security_events st @ evs"
  by (simp add: log_events)

lemma email_backup_events:
  "sid \<in> dom (ultra_secure_sessions st) \<Longrightarrow>
   security_events (snd (email_backup env st sid sd ms)) =
     security_events st @
       [\<lparr>event_type =
            (if 0 < length (filter (\<lambda>e. mail_delivers env (recipientEmail e))
                             (lockdown_recipients sd ms sid))
             then BACKUP_SENT else BACKUP_FAILED),
         event_session_id = sid, user_involved = None,
         details = BackupDetails
                     (length (filter (\<lambda>e. mail_delivers env (recipientEmail e))
                                (lockdown_recipients sd ms sid)))
                     (length (lockdown_recipients sd ms sid))\<rparr>]"
  by (simp add: email_backup_def Let_def log_events)

lemma email_backup_fst:
  "fst (email_backup env st sid sd ms) =
     length (filter (\<lambda>e. mail_delivers env (recipientEmail e)) (lockdown_recipients sd ms sid))"
  by (simp add: email_backup_def Let_def)

lemma wipe_events:
  "sid \<in> dom (ultra_secure_sessions st) \<Longrightarrow>
   security_events (wipe_messages st sid) =
     security_events st @
       [\<lparr>event_type = DATA_WIPED, event_session_id = sid, user_involved = None,
         details = WipedDetails (length (filter (\<lambda>m. uss_session_id m = sid) (uss_messages st)))\<rparr>]"
  by (simp add: wipe_messages_def Let_def log_events)

lemma lock_events:
  "sid \<in> dom (ultra_secure_sessions st) \<Longrightarrow>
   security_events (lock_session env st sid sd a b) =
     security_events st @
       [\<lparr>event_type = USS_LOCKDOWN, event_session_id = sid, user_involved = None,
         details = LockdownDetails (user_a sd) (user_b sd) a b\<rparr>]"
  by (simp add: lock_session_def log_events)

lemma lockdown_steps_fail_events:
  assumes "sid \<in> dom (ultra_secure_sessions st)" and "lockdown_steps env st sid sd = Inl (e, st')"
  shows "\<exists>evs. security_events st' = security_events st @ evs"
  using assms
  by (auto simp add: lockdown_steps_def Let_def case_prod_beta email_backup_events wipe_events
        domIff split: if_splits)

lemma activateLockdown_events_prefix:
  "\<exists>evs. security_events (activateLockdown env st sid) = security_events st @ evs"
proof (cases "ultra_secure_sessions st sid")
  case None
  then show ?thesis by (simp add: activateLockdown_def)
next
  case (Some sd)
  then have d: "sid \<in> dom (ultra_secure_sessions st)" by (simp add: domI)
  show ?thesis
  proof (cases "lockdown_steps env st sid sd")
    case (Inl p)
    obtain e st' where p: "p = (e, st')" by (cases p)
    from lockdown_steps_fail_events [OF d] Inl p obtain evs where
      "security_events st' = security_events st @ evs" by blast
    then show ?thesis using Some Inl p by (simp add: activateLockdown_def log_events)
  next
    case (Inr st')
    then show ?thesis using Some d
      by (auto simp add: activateLockdown_def lockdown_steps_def Let_def case_prod_beta
            email_backup_events wipe_events lock_events domIff split: if_splits)
  qed
qed

lemma increment_events:
  assumes "ultra_secure_sessions st sid = Some s"
  shows "\<exists>n st' rest. incrementWrongAttempts env st sid = Inr (n, st') \<and>
     security_events st' =
       security_events st @
         \<lparr>event_type = USS_ACCESS_DENIED, event_session_id = sid, user_involved = None,
          details = AttemptsDetails (wrong_attempts s + 1)\<rparr> # rest"
proof -
  let ?st2 = "logSecurityEvent (update_session st sid (\<lambda>s'. s'\<lparr>wrong_attempts := wrong_attempts s + 1\<rparr>))
                \<lparr>event_type = USS_ACCESS_DENIED, event_session_id = sid, user_involved = None,
                 details = AttemptsDetails (wrong_attempts s + 1)\<rparr>"
  have e2: "security_events ?st2 = security_events st @
      [\<lparr>event_type = USS_ACCESS_DENIED, event_session_id = sid, user_involved = None,
          details = AttemptsDetails (wrong_attempts s + 1)\<rparr>]"
    using assms domI [of "ultra_secure_sessions st" sid s] by (simp add: log_events)
  obtain evs where "security_events (activateLockdown env ?st2 sid) = security_events ?st2 @ evs"
    using activateLockdown_events_prefix by blast
  then show ?thesis using assms e2
    by (simp add: incrementWrongAttempts_def Let_def)
qed

lemma st_locked_eval:
  "ultra_secure_sessions st_locked 1 =
     Some (alice_bob\<lparr>wrong_attempts := 3, status := LOCKED, locked_at := Some 100\<rparr>)"
  "uss_messages st_locked = []"
  "lockdown_events st_locked 1 = 1"
  by (simp_all add: st_locked_def svc_defs fix_defs Let_def)

lemma reset_result:
  assumes "ultra_secure_sessions st sid = Some s"
  shows "ultra_secure_sessions (resetWrongAttempts env st sid) sid =
           Some (s\<lparr>wrong_attempts := 0, last_access := Some (now env)\<rparr>)"
    and "security_events (resetWrongAttempts env st sid) =
           security_events st @
             [\<lparr>event_type = USS_ACCESSED, event_session_id = sid, user_involved = None,
               details = AccessedDetails\<rparr>]"
  using assms
  by (simp_all add: resetWrongAttempts_def Let_def update_sessions log_events domIff)

lemma email_backup_sent:
  "sent_emails (snd (email_backup env st sid sd ms)) =
     sent_emails st @ filter (\<lambda>e. mail_delivers env (recipientEmail e)) (lockdown_recipients sd ms sid)"
  by (simp add: email_backup_def Let_def)

lemma lockdown_steps_cases:
  "export_fails env \<Longrightarrow> lockdown_steps env st sid sd = Inl (ExportError, st)"
  "\<not> export_fails env \<Longrightarrow> zip_fails env \<Longrightarrow> lockdown_steps env st sid sd = Inl (ZipError, st)"
  "\<not> export_fails env \<Longrightarrow> \<not> zip_fails env \<Longrightarrow> delete_fails env \<Longrightarrow>
     lockdown_steps env st sid sd =
       Inl (DeleteError, snd (email_backup env st sid sd (exportMessages st sid)))"
  "\<not> export_fails env \<Longrightarrow> \<not> zip_fails env \<Longrightarrow> \<not> delete_fails env \<Longrightarrow> update_fails env \<Longrightarrow>
     lockdown_steps env st sid sd =
       Inl (UpdateError, wipe_messages (snd (email_backup env st sid sd (exportMessages st sid))) sid)"
  by (simp_all add: lockdown_steps_def Let_def case_prod_beta)

lemma lock_session_map:
  "ultra_secure_sessions st sid = Some s \<Longrightarrow>
   ultra_secure_sessions (lock_session env st sid sd a b) =
     (ultra_secure_sessions st)(sid \<mapsto> s\<lparr>status := LOCKED, locked_at := Some (now env)\<rparr>)"
  by (rule ext) simp

section \<open>Claims about the session service\<close>

text \<open>
  Claim C9. For a stored session and a requesting user whose name is not the stored
  \<^verbatim>\<open>user_a\<close>, whoever that user is, \<^verbatim>\<open>getUSSSession\<close> returns the session record with
  participant B's double-encrypted key and IV, the passphrase hash and the salt. Nothing
  in it compares the requesting user with \<^verbatim>\<open>user_b\<close>, and the route hands the record
  of an active session on to any requesting user it was given a name for.
\<close>

theorem getUSSSession_no_participant_check:
  assumes "ultra_secure_sessions st sid = Some s" and "requestingUser \<noteq> user_a s"
  shows "fst (getUSSSession env st sid requestingUser) =
           Some \<lparr>sessionId = session_id s, userA = user_a s, userB = user_b s,
                 doubleEncryptedKey = double_encrypted_key_b s,
                 passphraseHash = passphrase_hash s, view_salt = salt s, iv = iv_b s,
                 wrongAttempts = wrong_attempts s, view_status = status s,
                 createdAt = created_at s, lastAccess = last_access s\<rparr> \<and>
         (requestingUser \<noteq> [] \<and> status s = ACTIVE \<longrightarrow>
            fst (get_session_route env st sid requestingUser) =
              OkSession \<lparr>sessionId = session_id s, userA = user_a s, userB = user_b s,
                 doubleEncryptedKey = double_encrypted_key_b s,
                 passphraseHash = passphrase_hash s, view_salt = salt s, iv = iv_b s,
                 wrongAttempts = wrong_attempts s, view_status = status s,
                 createdAt = created_at s, lastAccess = last_access s\<rparr>)"
  using assms by (simp add: get_session_route_def getUSSSession_def Let_def)

text \<open>
  The theorem at a user who is neither participant of the session of alice and bob.
\<close>

theorem getUSSSession_no_participant_check_witness:
  "ultra_secure_sessions st0 1 = Some alice_bob \<and> ''mallory'' \<noteq> user_a alice_bob \<and>
   ''mallory'' \<noteq> user_b alice_bob \<and>
   fst (getUSSSession reliable st0 1 ''mallory'') =
     Some \<lparr>sessionId = 1, userA = ''alice'', userB = ''bob'',
           doubleEncryptedKey = ''wrappedB'',
           passphraseHash = ''verifier'', view_salt = ''salt'', iv = ''ivB'',
           wrongAttempts = 0, view_status = ACTIVE,
           createdAt = 10, lastAccess = None\<rparr> \<and>
   fst (get_session_route reliable st0 1 ''mallory'') =
     OkSession \<lparr>sessionId = 1, userA = ''alice'', userB = ''bob'',
           doubleEncryptedKey = ''wrappedB'',
           passphraseHash = ''verifier'', view_salt = ''salt'', iv = ''ivB'',
           wrongAttempts = 0, view_status = ACTIVE,
           createdAt = 10, lastAccess = None\<rparr>"
proof -
  have a: "ultra_secure_sessions st0 1 = Some alice_bob" by (simp add: st0_def)
  have b: "''mallory'' \<noteq> user_a alice_bob" by (simp add: alice_bob_def)
  show ?thesis
    using getUSSSession_no_participant_check [OF a b, of reliable] a b
    by (simp add: alice_bob_def)
qed

text \<open>
  Claim C1, as amended. A run of failed attempts against a stored session adds one to
  \<^verbatim>\<open>wrong_attempts\<close> per attempt, whatever the lockdowns do. The lockdown is entered by
  every attempt whose new count is at least 3, whatever the status of the session: once
  by the third attempt from 0 and once more by each attempt after it. After the run
  the session is \<^verbatim>\<open>LOCKED\<close> when one of these lockdowns ran to its last step, its
  export, archive, delete and status-update calls succeeding; otherwise its status is
  what it was before the run.
\<close>

theorem failed_attempts_lock_and_repeat_lockdown:
  assumes "ultra_secure_sessions st sid = Some s"
  shows "\<exists>s'. ultra_secure_sessions (snd (verify_all st sid (map (\<lambda>env. (env, False)) envs))) sid = Some s' \<and>
           wrong_attempts s' = wrong_attempts s + length envs \<and>
           status s' =
             (if \<exists>i < length envs. 3 \<le> wrong_attempts s + Suc i \<and> lockdown_completes (envs ! i)
              then LOCKED else status s) \<and>
           lockdown_events (snd (verify_all st sid (map (\<lambda>env. (env, False)) envs))) sid =
             lockdown_events st sid + ((wrong_attempts s + length envs - 2) - (wrong_attempts s - 2))"
  using assms by (rule failed_run_any)

text \<open>
  Three failed attempts from 0 on the session of alice and bob, once with every
  lockdown call succeeding and once with the \<^verbatim>\<open>DELETE\<close> of the third attempt rejected.
\<close>

theorem failed_attempts_lock_and_repeat_lockdown_witness:
  "ultra_secure_sessions st0 1 = Some alice_bob \<and>
   (\<exists>s'. ultra_secure_sessions
            (snd (verify_all st0 1 [(reliable, False), (reliable, False), (reliable, False)])) 1 = Some s' \<and>
          wrong_attempts s' = 3 \<and> status s' = LOCKED \<and>
          lockdown_events
            (snd (verify_all st0 1 [(reliable, False), (reliable, False), (reliable, False)])) 1 = 1) \<and>
   (\<exists>s'. ultra_secure_sessions
            (snd (verify_all st0 1 [(reliable, False), (reliable, False), (delete_rejected, False)])) 1 = Some s' \<and>
          wrong_attempts s' = 3 \<and> status s' = ACTIVE \<and>
          lockdown_events
            (snd (verify_all st0 1 [(reliable, False), (reliable, False), (delete_rejected, False)])) 1 = 1)"
proof -
  have a: "ultra_secure_sessions st0 1 = Some alice_bob" by (simp add: st0_def)
  have w: "wrong_attempts alice_bob = 0" "status alice_bob = ACTIVE" by (simp_all add: alice_bob_def)
  have l: "lockdown_events st0 1 = 0" by (simp add: lockdown_events_def st0_def)
  have c: "lockdown_completes reliable" "\<not> lockdown_completes delete_rejected"
    by (simp_all add: lockdown_completes_def reliable_def delete_rejected_def)
  have "2 < length [reliable, reliable, reliable] \<and> 3 \<le> wrong_attempts alice_bob + Suc 2 \<and>
        lockdown_completes ([reliable, reliable, reliable] ! 2)"
    using w c by simp
  then have y: "\<exists>i < length [reliable, reliable, reliable].
      3 \<le> wrong_attempts alice_bob + Suc i \<and> lockdown_completes ([reliable, reliable, reliable] ! i)"
    by blast
  have n: "\<not> (\<exists>i < length [reliable, reliable, delete_rejected].
      3 \<le> wrong_attempts alice_bob + Suc i \<and>
      lockdown_completes ([reliable, reliable, delete_rejected] ! i))"
  proof
    assume "\<exists>i < length [reliable, reliable, delete_rejected].
      3 \<le> wrong_attempts alice_bob + Suc i \<and>
      lockdown_completes ([reliable, reliable, delete_rejected] ! i)"
    then obtain i where i: "i < length [reliable, reliable, delete_rejected]"
      "3 \<le> wrong_attempts alice_bob + Suc i"
      "lockdown_completes ([reliable, reliable, delete_rejected] ! i)"
      by blast
    from i(1,2) have "i = 2" using w by simp
    with i(3) c show False by simp
  qed
  from failed_attempts_lock_and_repeat_lockdown [OF a, of "[reliable, reliable, reliable]"]
  obtain s1 where 1:
    "ultra_secure_sessions
       (snd (verify_all st0 1 [(reliable, False), (reliable, False), (reliable, False)])) 1 = Some s1"
    "wrong_attempts s1 = 3" "status s1 = LOCKED"
    "lockdown_events
       (snd (verify_all st0 1 [(reliable, False), (reliable, False), (reliable, False)])) 1 = 1"
    unfolding if_P [OF y] using w l by auto
  from failed_attempts_lock_and_repeat_lockdown [OF a, of "[reliable, reliable, delete_rejected]"]
  obtain s2 where 2:
    "ultra_secure_sessions
       (snd (verify_all st0 1 [(reliable, False), (reliable, False), (delete_rejected, False)])) 1 = Some s2"
    "wrong_attempts s2 = 3" "status s2 = ACTIVE"
    "lockdown_events
       (snd (verify_all st0 1 [(reliable, False), (reliable, False), (delete_rejected, False)])) 1 = 1"
    unfolding if_not_P [OF n] using w l by auto
  from a 1 2 show ?thesis by blast
qed

text \<open>
  Claim C1 as stated fails: after the three attempts that lock the session of alice
  and bob, a fourth failed attempt enters the lockdown a second time and mails both
  participants again.
\<close>

theorem lockdown_invoked_again_counterexample:
  "map_option status (ultra_secure_sessions st_locked 1) = Some LOCKED \<and>
   lockdown_events st_locked 1 = 1 \<and>
   lockdown_events (snd (verify_route reliable st_locked 1 False)) 1 = 2 \<and>
   length (sent_emails st_locked) = 2 \<and>
   length (sent_emails (snd (verify_route reliable st_locked 1 False))) = 4"
  by (simp add: st_locked_def svc_defs fix_defs Let_def)

text \<open>
  Claim C2, as amended. On a \<^verbatim>\<open>LOCKED\<close> session every attempt leaves the status
  \<^verbatim>\<open>LOCKED\<close>. A failed attempt adds one to \<^verbatim>\<open>wrong_attempts\<close>, appends
  \<^verbatim>\<open>USS_ACCESS_DENIED\<close> and is answered "locked" when the new count is at least 3. A
  successful attempt is not refused: it sets \<^verbatim>\<open>wrong_attempts\<close> to 0, appends
  \<^verbatim>\<open>USS_ACCESSED\<close> and is answered "access granted".
\<close>

theorem locked_session_attempt:
  assumes "ultra_secure_sessions st sid = Some s" and "status s = LOCKED"
  shows "\<exists>s'. ultra_secure_sessions (snd (verify_route env st sid success)) sid = Some s' \<and>
           status s' = LOCKED \<and>
           (if success
            then fst (verify_route env st sid success) = AccessGranted 3 \<and>
                 wrong_attempts s' = 0 \<and>
                 security_events (snd (verify_route env st sid success)) =
                   security_events st @
                     [\<lparr>event_type = USS_ACCESSED, event_session_id = sid, user_involved = None,
                       details = AccessedDetails\<rparr>]
            else fst (verify_route env st sid success) =
                   (if 3 \<le> wrong_attempts s + 1 then SessionLockedResponse
                    else IncorrectPassphrase (3 - (wrong_attempts s + 1))) \<and>
                 wrong_attempts s' = wrong_attempts s + 1 \<and>
                 (\<exists>rest. security_events (snd (verify_route env st sid success)) =
                    security_events st @
                      \<lparr>event_type = USS_ACCESS_DENIED, event_session_id = sid,
                       user_involved = None,
                       details = AttemptsDetails (wrong_attempts s + 1)\<rparr> # rest))"
proof (cases success)
  case True
  then show ?thesis
    using reset_result [OF assms(1), of env] assms(2) by (simp add: verify_route_def)
next
  case False
  from increment_events [OF assms(1), of env] obtain n st' rest where
    i: "incrementWrongAttempts env st sid = Inr (n, st')"
    and e: "security_events st' =
       security_events st @
         \<lparr>event_type = USS_ACCESS_DENIED, event_session_id = sid, user_involved = None,
          details = AttemptsDetails (wrong_attempts s + 1)\<rparr> # rest" by blast
  have "snd (verify_route env st sid False) = st'"
    using i by (simp add: verify_route_def)
  then show ?thesis
    using False verify_failed_step [OF assms(1), of env] assms(2) e by auto
qed

text \<open>A failed attempt on the locked session of alice and bob.\<close>

theorem locked_session_attempt_witness:
  "ultra_secure_sessions st_locked 1 =
     Some (alice_bob\<lparr>wrong_attempts := 3, status := LOCKED, locked_at := Some 100\<rparr>) \<and>
   status (alice_bob\<lparr>wrong_attempts := 3, status := LOCKED, locked_at := Some 100\<rparr>) = LOCKED \<and>
   (\<exists>s'. ultra_secure_sessions (snd (verify_route reliable st_locked 1 False)) 1 = Some s' \<and>
      status s' = LOCKED \<and> wrong_attempts s' = 4 \<and>
      fst (verify_route reliable st_locked 1 False) = SessionLockedResponse)"
  using locked_session_attempt [of st_locked 1 "alice_bob\<lparr>wrong_attempts := 3, status := LOCKED, locked_at := Some 100\<rparr>" reliable False]
    st_locked_eval(1)
  by auto

text \<open>
  Claim C2 as stated fails: on the locked session of alice and bob an attempt with
  \<^verbatim>\<open>success = true\<close> is answered "access granted", resets \<^verbatim>\<open>wrong_attempts\<close> from 3 to 0
  and appends \<^verbatim>\<open>USS_ACCESSED\<close>, not \<^verbatim>\<open>USS_ACCESS_DENIED\<close>.
\<close>

theorem locked_session_reset_counterexample:
  "map_option status (ultra_secure_sessions st_locked 1) = Some LOCKED \<and>
   fst (verify_route reliable st_locked 1 True) = AccessGranted 3 \<and>
   map_option wrong_attempts (ultra_secure_sessions st_locked 1) = Some 3 \<and>
   map_option wrong_attempts (ultra_secure_sessions (snd (verify_route reliable st_locked 1 True)) 1) = Some 0 \<and>
   event_type (last (security_events (snd (verify_route reliable st_locked 1 True)))) = USS_ACCESSED"
  by (simp add: st_locked_def svc_defs fix_defs Let_def)

text \<open>
  Claim C6, as amended. Whatever the deliveries do, a lockdown of a stored session
  whose export, archive, delete and status-update calls succeed mails the archive to
  the addresses that accept it, deletes every message of the session, marks it
  \<^verbatim>\<open>LOCKED\<close> with the time of the lockdown, and logs three events: one for the backup
  (\<^verbatim>\<open>BACKUP_SENT\<close> when at least one delivery succeeded, \<^verbatim>\<open>BACKUP_FAILED\<close> when none
  did, with both counts), \<^verbatim>\<open>DATA_WIPED\<close> and \<^verbatim>\<open>USS_LOCKDOWN\<close>. When one of those calls
  rejects, the steps after it are skipped and one \<^verbatim>\<open>USS_LOCKDOWN\<close> event recording
  the failure is logged after the events of the steps that ran; the session row is
  left as it was in every such case. A rejected export or archive call leaves the
  messages and the mails as they were. A rejected \<^verbatim>\<open>DELETE\<close> comes after the mails and
  the backup event, and leaves the messages. A rejected status \<^verbatim>\<open>UPDATE\<close> comes after
  the mails, the deletion of the messages and their two events.
\<close>

theorem lockdown_outcome:
  fixes env :: collaborators and st :: state and sid :: nat and s :: uss_session
  defines "st' \<equiv> activateLockdown env st sid"
    and "delivered \<equiv> filter (\<lambda>e. mail_delivers env (recipientEmail e))
                        (lockdown_recipients s (exportMessages st sid) sid)"
    and "backup \<equiv>
           \<lparr>event_type =
              (if 0 < length (filter (\<lambda>e. mail_delivers env (recipientEmail e))
                                (lockdown_recipients s (exportMessages st sid) sid))
               then BACKUP_SENT else BACKUP_FAILED),
            event_session_id = sid, user_involved = None,
            details = BackupDetails
              (length (filter (\<lambda>e. mail_delivers env (recipientEmail e))
                         (lockdown_recipients s (exportMessages st sid) sid)))
              (length (lockdown_recipients s (exportMessages st sid) sid))\<rparr>"
    and "wiped \<equiv>
           \<lparr>event_type = DATA_WIPED, event_session_id = sid, user_involved = None,
            details = WipedDetails
              (length (filter (\<lambda>m. uss_session_id m = sid) (uss_messages st)))\<rparr>"
    and "failed \<equiv> \<lambda>error.
           \<lparr>event_type = USS_LOCKDOWN, event_session_id = sid, user_involved = None,
            details = LockdownFailedDetails error\<rparr>"
  assumes stored: "ultra_secure_sessions st sid = Some s"
  shows "(lockdown_completes env \<longrightarrow>
            ultra_secure_sessions st' sid =
              Some (s\<lparr>status := LOCKED, locked_at := Some (now env)\<rparr>) \<and>
            ultra_secure_sessions st' =
              (ultra_secure_sessions st)(sid \<mapsto> s\<lparr>status := LOCKED, locked_at := Some (now env)\<rparr>) \<and>
            filter (\<lambda>m. uss_session_id m = sid) (uss_messages st') = [] \<and>
            uss_messages st' = filter (\<lambda>m. uss_session_id m \<noteq> sid) (uss_messages st) \<and>
            sent_emails st' = sent_emails st @ delivered \<and>
            security_events st' =
              security_events st @
                [backup, wiped,
                 \<lparr>event_type = USS_LOCKDOWN, event_session_id = sid, user_involved = None,
                   details = LockdownDetails (user_a s) (user_b s)
                     (length (exportMessages st sid)) (length delivered)\<rparr>]) \<and>
         (export_fails env \<longrightarrow>
            ultra_secure_sessions st' = ultra_secure_sessions st \<and>
            uss_messages st' = uss_messages st \<and>
            sent_emails st' = sent_emails st \<and>
            security_events st' = security_events st @ [failed ExportError]) \<and>
         (\<not> export_fails env \<and> zip_fails env \<longrightarrow>
            ultra_secure_sessions st' = ultra_secure_sessions st \<and>
            uss_messages st' = uss_messages st \<and>
            sent_emails st' = sent_emails st \<and>
            security_events st' = security_events st @ [failed ZipError]) \<and>
         (\<not> export_fails env \<and> \<not> zip_fails env \<and> delete_fails env \<longrightarrow>
            ultra_secure_sessions st' = ultra_secure_sessions st \<and>
            uss_messages st' = uss_messages st \<and>
            sent_emails st' = sent_emails st @ delivered \<and>
            security_events st' = security_events st @ [backup, failed DeleteError]) \<and>
         (\<not> export_fails env \<and> \<not> zip_fails env \<and> \<not> delete_fails env \<and> update_fails env \<longrightarrow>
            ultra_secure_sessions st' = ultra_secure_sessions st \<and>
            uss_messages st' = filter (\<lambda>m. uss_session_id m \<noteq> sid) (uss_messages st) \<and>
            sent_emails st' = sent_emails st @ delivered \<and>
            security_events st' = security_events st @ [backup, wiped, failed UpdateError])"
proof -
  have d: "ultra_secure_sessions st sid \<noteq> None" using stored by simp
  have ok: "lockdown_completes env \<Longrightarrow>
      st' = lock_session env
              (wipe_messages (snd (email_backup env st sid s (exportMessages st sid))) sid)
              sid s (length (exportMessages st sid))
              (fst (email_backup env st sid s (exportMessages st sid)))"
    using stored by (simp add: st'_def activateLockdown_def lockdown_steps_ok)
  have c1: "lockdown_completes env \<Longrightarrow>
      ultra_secure_sessions st' =
        (ultra_secure_sessions st)(sid \<mapsto> s\<lparr>status := LOCKED, locked_at := Some (now env)\<rparr>) \<and>
      uss_messages st' = filter (\<lambda>m. uss_session_id m \<noteq> sid) (uss_messages st) \<and>
      sent_emails st' = sent_emails st @ delivered \<and>
      security_events st' =
        security_events st @
          [backup, wiped,
           \<lparr>event_type = USS_LOCKDOWN, event_session_id = sid, user_involved = None,
             details = LockdownDetails (user_a s) (user_b s)
               (length (exportMessages st sid)) (length delivered)\<rparr>]"
    using stored d
    by (simp add: ok lock_session_map email_backup_sent lock_events wipe_events
          email_backup_events email_backup_fst domIff delivered_def backup_def wiped_def)
  have c2: "export_fails env \<Longrightarrow>
      ultra_secure_sessions st' = ultra_secure_sessions st \<and>
      uss_messages st' = uss_messages st \<and>
      sent_emails st' = sent_emails st \<and>
      security_events st' = security_events st @ [failed ExportError]"
    using stored d
    by (simp add: st'_def activateLockdown_def lockdown_steps_cases log_events domIff failed_def)
  have c3: "\<not> export_fails env \<and> zip_fails env \<Longrightarrow>
      ultra_secure_sessions st' = ultra_secure_sessions st \<and>
      uss_messages st' = uss_messages st \<and>
      sent_emails st' = sent_emails st \<and>
      security_events st' = security_events st @ [failed ZipError]"
    using stored d
    by (simp add: st'_def activateLockdown_def lockdown_steps_cases log_events domIff failed_def)
  have c4: "\<not> export_fails env \<and> \<not> zip_fails env \<and> delete_fails env \<Longrightarrow>
      ultra_secure_sessions st' = ultra_secure_sessions st \<and>
      uss_messages st' = uss_messages st \<and>
      sent_emails st' = sent_emails st @ delivered \<and>
      security_events st' = security_events st @ [backup, failed DeleteError]"
    using stored d
    by (simp add: st'_def activateLockdown_def lockdown_steps_cases log_events domIff failed_def
          email_backup_sent email_backup_events delivered_def backup_def)
  have c5: "\<not> export_fails env \<and> \<not> zip_fails env \<and> \<not> delete_fails env \<and> update_fails env \<Longrightarrow>
      ultra_secure_sessions st' = ultra_secure_sessions st \<and>
      uss_messages st' = filter (\<lambda>m. uss_session_id m \<noteq> sid) (uss_messages st) \<and>
      sent_emails st' = sent_emails st @ delivered \<and>
      security_events st' = security_events st @ [backup, wiped, failed UpdateError]"
    using stored d
    by (simp add: st'_def activateLockdown_def lockdown_steps_cases log_events domIff failed_def
          email_backup_sent email_backup_events wipe_events delivered_def backup_def wiped_def)
  have f: "uss_messages st' = filter (\<lambda>m. uss_session_id m \<noteq> sid) (uss_messages st) \<Longrightarrow>
      filter (\<lambda>m. uss_session_id m = sid) (uss_messages st') = []"
    by simp
  from c1 c2 c3 c4 c5 f show ?thesis by (simp add: fun_upd_same)
qed

text \<open>
  The session of alice and bob: with bob's mail bouncing, and with the export, the
  \<^verbatim>\<open>DELETE\<close> and the status \<^verbatim>\<open>UPDATE\<close> rejected in turn.
\<close>

theorem lockdown_outcome_witness:
  "ultra_secure_sessions st0 1 = Some alice_bob \<and>
   lockdown_completes bob_bounces \<and>
   map_option status (ultra_secure_sessions (activateLockdown bob_bounces st0 1) 1) = Some LOCKED \<and>
   uss_messages (activateLockdown bob_bounces st0 1) = [] \<and>
   map recipientEmail (sent_emails (activateLockdown bob_bounces st0 1)) = [''alice@example.com''] \<and>
   export_fails export_rejected \<and>
   ultra_secure_sessions (activateLockdown export_rejected st0 1) = ultra_secure_sessions st0 \<and>
   uss_messages (activateLockdown export_rejected st0 1) = [hello] \<and>
   sent_emails (activateLockdown export_rejected st0 1) = [] \<and>
   map event_type (security_events (activateLockdown export_rejected st0 1)) = [USS_LOCKDOWN] \<and>
   \<not> export_fails delete_rejected \<and> \<not> zip_fails delete_rejected \<and> delete_fails delete_rejected \<and>
   ultra_secure_sessions (activateLockdown delete_rejected st0 1) = ultra_secure_sessions st0 \<and>
   uss_messages (activateLockdown delete_rejected st0 1) = [hello] \<and>
   map recipientEmail (sent_emails (activateLockdown delete_rejected st0 1)) =
     [''alice@example.com'', ''bob@example.com''] \<and>
   map event_type (security_events (activateLockdown delete_rejected st0 1)) =
     [BACKUP_SENT, USS_LOCKDOWN] \<and>
   \<not> export_fails update_rejected \<and> \<not> zip_fails update_rejected \<and>
   \<not> delete_fails update_rejected \<and> update_fails update_rejected \<and>
   ultra_secure_sessions (activateLockdown update_rejected st0 1) = ultra_secure_sessions st0 \<and>
   uss_messages (activateLockdown update_rejected st0 1) = [] \<and>
   map recipientEmail (sent_emails (activateLockdown update_rejected st0 1)) =
     [''alice@example.com'', ''bob@example.com''] \<and>
   map event_type (security_events (activateLockdown update_rejected st0 1)) =
     [BACKUP_SENT, DATA_WIPED, USS_LOCKDOWN]"
proof -
  have a: "ultra_secure_sessions st0 1 = Some alice_bob" by (simp add: st0_def)
  have b: "lockdown_completes bob_bounces"
    by (simp add: lockdown_completes_def bob_bounces_def reliable_def)
  have e: "export_fails export_rejected" by (simp add: export_rejected_def)
  have d: "\<not> export_fails delete_rejected \<and> \<not> zip_fails delete_rejected \<and> delete_fails delete_rejected"
    by (simp add: delete_rejected_def reliable_def)
  have u: "\<not> export_fails update_rejected \<and> \<not> zip_fails update_rejected \<and>
           \<not> delete_fails update_rejected \<and> update_fails update_rejected"
    by (simp add: update_rejected_def reliable_def)
  have r: "lockdown_recipients alice_bob (exportMessages st0 1) 1 =
      [\<lparr>recipientEmail = ''alice@example.com'', recipientName = ''alice'',
         zipBuffer = [hello], email_session_id = 1, email_user_a = ''alice'', email_user_b = ''bob''\<rparr>,
       \<lparr>recipientEmail = ''bob@example.com'', recipientName = ''bob'',
         zipBuffer = [hello], email_session_id = 1, email_user_a = ''alice'', email_user_b = ''bob''\<rparr>]"
    by (simp add: lockdown_recipients_def exportMessages_def fix_defs)
  have m: "mail_delivers bob_bounces = (\<lambda>address. address = ''alice@example.com'')"
      "mail_delivers delete_rejected = (\<lambda>_. True)" "mail_delivers update_rejected = (\<lambda>_. True)"
    by (simp_all add: bob_bounces_def delete_rejected_def update_rejected_def reliable_def)
  have s: "uss_messages st0 = [hello]" "sent_emails st0 = []" "security_events st0 = []"
      "uss_session_id hello = 1" "status alice_bob = ACTIVE"
    by (simp_all add: fix_defs)
  show ?thesis
    using lockdown_outcome [OF a, of bob_bounces] lockdown_outcome [OF a, of export_rejected]
      lockdown_outcome [OF a, of delete_rejected] lockdown_outcome [OF a, of update_rejected]
      a b e d u
    by (simp add: r m s del: One_nat_def)
qed

text \<open>
  Claim C6 as stated fails twice. When only bob's mail bounces, the events logged are
  \<^verbatim>\<open>BACKUP_SENT\<close>, \<^verbatim>\<open>DATA_WIPED\<close> and \<^verbatim>\<open>USS_LOCKDOWN\<close>: no event records the failed
  delivery. When the \<^verbatim>\<open>DELETE\<close> is rejected, the messages stay and the session stays
  \<^verbatim>\<open>ACTIVE\<close>: the later step is not run.
\<close>

theorem lockdown_aborts_counterexample:
  "map event_type (security_events (activateLockdown bob_bounces st0 1)) =
     [BACKUP_SENT, DATA_WIPED, USS_LOCKDOWN] \<and>
   map recipientEmail (sent_emails (activateLockdown bob_bounces st0 1)) = [''alice@example.com''] \<and>
   uss_messages (activateLockdown delete_rejected st0 1) = [hello] \<and>
   map_option status (ultra_secure_sessions (activateLockdown delete_rejected st0 1) 1) = Some ACTIVE \<and>
   map event_type (security_events (activateLockdown delete_rejected st0 1)) =
     [BACKUP_SENT, USS_LOCKDOWN]"
  by (simp add: bob_bounces_def delete_rejected_def svc_defs fix_defs Let_def)

section \<open>Properties of the base64 helpers\<close>

lemma div_mult_add_less: "(x::nat) < k \<Longrightarrow> (m * k + x) div k = m"
  by simp

lemma mod_mult_add_less: "(x::nat) < k \<Longrightarrow> (m * k + x) mod k = x"
  by simp

lemma byte_div_bounds:
  "(b::nat) < 256 \<Longrightarrow> b div 16 < 16"
  "(b::nat) < 256 \<Longrightarrow> b div 64 < 4"
  "(b::nat) < 256 \<Longrightarrow> b div 4 < 64"
  by simp_all

lemma sextets_bound_arith:
  "(a::nat) < 256 \<Longrightarrow> a div 4 < 64"
  "(b::nat) < 256 \<Longrightarrow> (a mod 4) * 16 + b div 16 < 64"
  "(c::nat) < 256 \<Longrightarrow> (b mod 16) * 4 + c div 64 < 64"
  "(b mod 16) * 4 < (64::nat)"
  "(a mod 4) * 16 < (64::nat)"
      apply simp
proof -
  have a4: "a mod 4 < 4" and b16: "b mod 16 < 16" by simp_all
  { assume "b < 256" then have "b div 16 < 16" by simp
    with a4 show "(a mod 4) * 16 + b div 16 < 64" by linarith }
  { assume "c < 256" then have "c div 64 < 4" by simp
    with b16 show "(b mod 16) * 4 + c div 64 < 64" by linarith }
  from b16 show "(b mod 16) * 4 < (64::nat)" by linarith
  from a4 show "(a mod 4) * 16 < (64::nat)" by linarith
qed

lemma b64_char_value_all: "\<forall>n \<in> set [0..<64]. b64_value (b64_char n) = Some n"
  by code_simp

lemma b64_char_value: "n < 64 \<Longrightarrow> b64_value (b64_char n) = Some n"
  using b64_char_value_all by simp

lemma unat_byte_less: "unat (b :: byte) < 256"
  using unsigned_less [of b, where 'a = nat] by simp

lemma ucast_byte_roundtrip: "(ucast (ucast (b :: byte) :: code_unit) :: byte) = b"
  by (simp add: ucast_up_ucast_id is_up)

lemma sextets_bound: "\<forall>s \<in> set (sextets bs). s < 64"
  by (induction bs rule: sextets.induct)
     (simp_all add: sextets_bound_arith unat_byte_less)

lemma byte_div_simps:
  "(b::nat) < 256 \<Longrightarrow> b div 16 div 16 = 0"
  "(b::nat) < 256 \<Longrightarrow> b div 16 mod 16 = b div 16"
  "(b::nat) < 256 \<Longrightarrow> b div 64 div 4 = 0"
  "(b::nat) < 256 \<Longrightarrow> b div 64 mod 4 = b div 64"
  by simp_all

lemma octets_sextets: "octets (sextets bs) = bs"
  by (induction bs rule: sextets.induct)
     (simp_all add: byte_div_simps unat_byte_less)

lemma mod_Suc3: "Suc (Suc (Suc n)) mod 3 = n mod 3"
  by presburger

lemma mod_Suc4: "Suc (Suc (Suc (Suc n))) mod 4 = n mod 4"
  by presburger

lemma length_sextets_mod:
  "length (sextets bs) mod 4 = (if length bs mod 3 = 0 then 0 else length bs mod 3 + 1)"
  by (induction bs rule: sextets.induct) (simp_all add: mod_Suc3 mod_Suc4)

lemma those_b64_value: "\<forall>s \<in> set xs. s < 64 \<Longrightarrow> those (map b64_value (map b64_char xs)) = Some xs"
  by (induction xs) (simp_all add: b64_char_value)

lemma whitespace_no_value: "ascii_whitespace c \<Longrightarrow> b64_value c = None"
  by (auto simp add: ascii_whitespace_def b64_value_def)

lemma padding_no_value: "b64_value 61 = None"
  by (simp add: b64_value_def)

lemma b64_char_plain: "n < 64 \<Longrightarrow> \<not> ascii_whitespace (b64_char n) \<and> b64_char n \<noteq> 61"
  using b64_char_value [of n] whitespace_no_value [of "b64_char n"] padding_no_value by auto

lemma remove_padding_append:
  assumes "\<forall>c \<in> set xs. c \<noteq> 61" and "k \<le> 2"
  shows "remove_padding (xs @ replicate k 61) = xs"
proof -
  consider "k = 0" | "k = 1" | "k = 2" using assms(2) by linarith
  then show ?thesis
  proof cases
    case 1
    show ?thesis
    proof (cases xs rule: rev_cases)
      case Nil
      then show ?thesis using 1 by (simp add: remove_padding_def)
    next
      case (snoc ys y)
      then have "y \<noteq> 61" using assms(1) by simp
      then show ?thesis using 1 snoc by (cases "rev ys") (simp_all add: remove_padding_def)
    qed
  next
    case 2
    show ?thesis
    proof (cases xs rule: rev_cases)
      case Nil
      then show ?thesis using 2 by (simp add: remove_padding_def)
    next
      case (snoc ys y)
      then have "y \<noteq> 61" using assms(1) by simp
      then show ?thesis using 2 snoc by (simp add: remove_padding_def)
    qed
  next
    case 3
    then have "replicate k (61::code_unit) = [61, 61]" by (simp add: numeral_2_eq_2)
    then show ?thesis by (simp add: remove_padding_def)
  qed
qed

lemma unat_ucast_byte: "unat (ucast (b :: byte) :: code_unit) = unat b"
proof -
  have "unat b < 2 ^ 16" using unat_byte_less [of b] by simp
  then show ?thesis by (simp add: unsigned_ucast_eq take_bit_nat_eq_self)
qed

lemma ucast_byte_not_above: "\<not> (ucast (b :: byte) :: code_unit) > 255"
  using unat_byte_less [of b] by (simp add: word_less_nat_alt unat_ucast_byte)

lemma latin1_no_exception: "\<not> list_ex (\<lambda>c. c > 255) (map ucast (buf :: byte list) :: jsstring)"
  by (induction buf) (simp_all add: ucast_byte_not_above)

lemma map_ucast_roundtrip: "map ((ucast :: code_unit \<Rightarrow> byte) \<circ> ucast) buf = buf"
  by (induction buf) (simp_all add: ucast_byte_roundtrip)

lemma arrayBufferToBase64_eq:
  "arrayBufferToBase64 buf =
     Inr (map b64_char (sextets buf) @ replicate ((3 - length buf mod 3) mod 3) 61)"
  by (simp add: arrayBufferToBase64_def btoa_def latin1_no_exception map_ucast_roundtrip)

lemma mod3_cases: "(n::nat) mod 3 = 0 \<or> n mod 3 = 1 \<or> n mod 3 = 2"
  by presburger

lemma encoded_length:
  "(length (sextets buf) + (3 - length buf mod 3) mod 3) mod 4 = 0"
proof -
  have "(length (sextets buf) + (3 - length buf mod 3) mod 3) mod 4 =
        (length (sextets buf) mod 4 + (3 - length buf mod 3) mod 3) mod 4"
    by (simp add: mod_add_left_eq)
  moreover have "(length (sextets buf) mod 4 + (3 - length buf mod 3) mod 3) mod 4 = 0"
  proof -
    consider "length buf mod 3 = 0" | "length buf mod 3 = 1" | "length buf mod 3 = 2"
      using mod3_cases [of "length buf"] by auto
    then show ?thesis
      by cases (simp_all add: length_sextets_mod)
  qed
  ultimately show ?thesis by simp
qed

lemma body_length: "length (sextets buf) mod 4 \<noteq> 1"
proof -
  consider "length buf mod 3 = 0" | "length buf mod 3 = 1" | "length buf mod 3 = 2"
    using mod3_cases [of "length buf"] by auto
  then show ?thesis
    by cases (simp_all add: length_sextets_mod)
qed

lemma body_plain:
  "\<forall>c \<in> set (map b64_char (sextets buf)). \<not> ascii_whitespace c \<and> c \<noteq> 61"
  using sextets_bound [of buf] b64_char_plain by auto

lemma atob_encoded:
  "atob (map b64_char (sextets buf) @ replicate ((3 - length buf mod 3) mod 3) 61) =
     Inr (map ucast buf)"
proof -
  let ?body = "map b64_char (sextets buf)"
  let ?k = "(3 - length buf mod 3) mod 3"
  have ws61: "\<not> ascii_whitespace 61" by (simp add: ascii_whitespace_def)
  have f: "filter (\<lambda>c. \<not> ascii_whitespace c) (?body @ replicate ?k 61) = ?body @ replicate ?k 61"
    using body_plain [of buf] ws61 by (auto simp add: filter_id_conv)
  have l: "length (?body @ replicate ?k 61) mod 4 = 0"
    using encoded_length [of buf] by simp
  have "?k < 3" by simp
  then have k: "?k \<le> 2" by linarith
  have r: "remove_padding (?body @ replicate ?k 61) = ?body"
    using remove_padding_append [OF _ k, of ?body] body_plain [of buf] by blast
  have b: "length ?body mod 4 \<noteq> 1" using body_length [of buf] by simp
  have t: "those (map b64_value ?body) = Some (sextets buf)"
    using those_b64_value [OF sextets_bound] .
  show ?thesis
    unfolding atob_def f Let_def using l r b t by (simp add: octets_sextets)
qed

lemma base64_roundtrip:
  "\<exists>s. arrayBufferToBase64 buf = Inr s \<and> base64ToUint8Array s = Inr buf"
  by (simp add: arrayBufferToBase64_eq base64ToUint8Array_def atob_encoded map_ucast_roundtrip)

lemma sort_pair: "sort [a, b] = [min a b, max a b]" for a b :: jsstring
  by (auto simp add: min_def max_def)

lemma deriveMessageKey_ok:
  assumes "sessionKeyRaw \<noteq> []"
    and "length (hmac_sha256 P sessionKeyRaw (text_encode P (js_String msgNo))) = 32"
  shows "deriveMessageKey P sessionKeyRaw msgNo =
           Inr (AesGcmKey (hmac_sha256 P sessionKeyRaw (text_encode P (js_String msgNo))))"
  using assms by (simp add: deriveMessageKey_def importKey_hmac_def importKey_aes_gcm_def Let_def)

lemma message_roundtrip:
  assumes "length sessionKeyRaw = 32"
    and "length randomValues = 12"
    and "length (hmac_sha256 P sessionKeyRaw (text_encode P (js_String msgNo))) = 32"
    and "aes_gcm_decrypt P (hmac_sha256 P sessionKeyRaw (text_encode P (js_String msgNo)))
           randomValues
           (aes_gcm_encrypt P (hmac_sha256 P sessionKeyRaw (text_encode P (js_String msgNo)))
              randomValues (text_encode P plaintext)) =
         Some (text_encode P plaintext)"
  shows "\<exists>blob. encryptMessage P randomValues sessionKeyRaw msgNo plaintext = Inr blob \<and>
           decryptMessage P sessionKeyRaw msgNo blob =
             Inr (text_decode P (text_encode P plaintext))"
proof -
  let ?key = "hmac_sha256 P sessionKeyRaw (text_encode P (js_String msgNo))"
  let ?combined = "randomValues @ aes_gcm_encrypt P ?key randomValues (text_encode P plaintext)"
  have k: "deriveMessageKey P sessionKeyRaw msgNo = Inr (AesGcmKey ?key)"
    using assms(1,3) by (intro deriveMessageKey_ok) auto
  obtain blob where b: "arrayBufferToBase64 ?combined = Inr blob"
    and d: "base64ToUint8Array blob = Inr ?combined"
    using base64_roundtrip by blast
  have "encryptMessage P randomValues sessionKeyRaw msgNo plaintext = Inr blob"
    using k b by (simp add: encryptMessage_def Let_def)
  moreover have "decryptMessage P sessionKeyRaw msgNo blob =
      Inr (text_decode P (text_encode P plaintext))"
    using k d assms(2,4) by (simp add: decryptMessage_def Let_def)
  ultimately show ?thesis by blast
qed

lemma stand_in_fields:
  "text_encode stand_in = map ucast"
  "text_decode stand_in = map ucast"
  "hmac_sha256 stand_in = (\<lambda>key data. take 32 (data @ key @ replicate 32 0))"
  "aes_gcm_encrypt stand_in = (\<lambda>key iv data. data @ take 16 (key @ replicate 16 0))"
  "aes_gcm_decrypt stand_in = (\<lambda>key iv data.
         if 16 \<le> length data \<and> drop (length data - 16) data = take 16 (key @ replicate 16 0)
         then Some (take (length data - 16) data) else None)"
  "pbkdf2_sha512 stand_in = (\<lambda>password saltBytes iterations bits.
         take (bits div 8) (password @ saltBytes @ replicate (bits div 8) 0))"
  by (simp_all add: stand_in_def)

lemma stand_in_utf8_fields:
  "text_encode stand_in_utf8 = TextEncoder_encode"
  "text_decode stand_in_utf8 = TextDecoder_decode"
  "length (hmac_sha256 stand_in_utf8 keyData data) = 32"
  "aes_gcm_decrypt stand_in_utf8 keyData ivBytes (aes_gcm_encrypt stand_in_utf8 keyData ivBytes data) =
     Some data"
  by (simp_all add: stand_in_utf8_def stand_in_def)

lemma stand_in_utf8_roundtrip:
  "\<exists>blob. encryptMessage stand_in_utf8 iv0 key0 msgNo plaintext = Inr blob \<and>
      decryptMessage stand_in_utf8 key0 msgNo blob =
        Inr (TextDecoder_decode (TextEncoder_encode plaintext))"
proof -
  have 1: "length key0 = 32" by (simp add: key0_def)
  have 2: "length iv0 = 12" by (simp add: iv0_def)
  show ?thesis
    using message_roundtrip [where P = stand_in_utf8 and msgNo = msgNo and plaintext = plaintext,
        OF 1 2 stand_in_utf8_fields(3) stand_in_utf8_fields(4)]
    by (simp add: stand_in_utf8_fields(1,2))
qed

lemmas utf8_defs = TextEncoder_encode_def TextDecoder_decode_def utf8_bytes_def code_units_def
  high_surrogate_def low_surrogate_def

lemma verifier_is_key:
  "\<exists>verifier. hashPassphrase P passphrase saltBytes = Inr verifier \<and>
      base64ToUint8Array verifier = Inr (pbkdf2_sha512 P (text_encode P passphrase) saltBytes 310000 256) \<and>
      key_material (derivePassphraseKey P passphrase saltBytes) =
        pbkdf2_sha512 P (text_encode P passphrase) saltBytes 310000 256"
  using base64_roundtrip [of "pbkdf2_sha512 P (text_encode P passphrase) saltBytes 310000 256"]
  by (simp add: hashPassphrase_def derivePassphraseKey_def Let_def)

section \<open>Properties of the signature verifier\<close>

lemmas sig_defs = verifyMessageSignature_run_def verifyMessageSignature_def encodings_tried_def
  getSigningKey_def uss_message_verified_def

lemma verifyMessageSignature_iff:
  "verifyMessageSignature C users senderUsername message s \<longleftrightarrow>
     (\<exists>pem key. getSigningKey users senderUsername = Inr (Some pem) \<and> createPublicKey C pem = Some key \<and>
        (verify C IEEE_P1363 key message (buffer_from_base64 C s) = Some True \<or>
         verify C IEEE_P1363 key message (buffer_from_base64 C s) = None \<and>
         verify C DER key message (buffer_from_base64 C s) = Some True))"
  unfolding verifyMessageSignature_def verifyMessageSignature_run_def Let_def
  by (auto split: sum.splits option.splits)

section \<open>Claims about signature verification\<close>

text \<open>
  Claim C3, as amended. The verifier passes at most two encodings to \<^verbatim>\<open>verify.verify\<close>,
  the raw IEEE-P1363 encoding first. When that first attempt returns, valid or invalid,
  its verdict is the result and nothing else is tried. When it throws, the verifier
  goes on to a second attempt under DER and returns that attempt's verdict, \<^verbatim>\<open>false\<close>
  if it throws as well.
\<close>

theorem der_tried_after_exception:
  "encodings_tried C users senderUsername message signatureBase64
      \<in> {[], [IEEE_P1363], [IEEE_P1363, DER]} \<and>
   (encodings_tried C users senderUsername message signatureBase64 = [IEEE_P1363, DER] \<longleftrightarrow>
      (\<exists>pem key. getSigningKey users senderUsername = Inr (Some pem) \<and>
         createPublicKey C pem = Some key \<and>
         verify C IEEE_P1363 key message (buffer_from_base64 C signatureBase64) = None)) \<and>
   (\<forall>pem key isValid.
      getSigningKey users senderUsername = Inr (Some pem) \<and> createPublicKey C pem = Some key \<and>
      verify C IEEE_P1363 key message (buffer_from_base64 C signatureBase64) = Some isValid \<longrightarrow>
        verifyMessageSignature C users senderUsername message signatureBase64 = isValid \<and>
        encodings_tried C users senderUsername message signatureBase64 = [IEEE_P1363]) \<and>
   (\<forall>pem key.
      getSigningKey users senderUsername = Inr (Some pem) \<and> createPublicKey C pem = Some key \<and>
      verify C IEEE_P1363 key message (buffer_from_base64 C signatureBase64) = None \<longrightarrow>
        verifyMessageSignature C users senderUsername message signatureBase64 =
          (verify C DER key message (buffer_from_base64 C signatureBase64) = Some True))"
  unfolding verifyMessageSignature_def encodings_tried_def verifyMessageSignature_run_def Let_def
  by (auto split: sum.splits option.splits)

text \<open>
  A signature in the raw encoding, verified against alice's key at the first attempt,
  and one that is malformed for the raw encoding and wrong under DER.
\<close>

theorem der_tried_after_exception_witness:
  "getSigningKey alice_only ''alice'' = Inr (Some ''alicekey'') \<and>
   createPublicKey sample_node ''alicekey'' = Some ''alicekey'' \<and>
   verify sample_node IEEE_P1363 ''alicekey'' ''hello''
     (buffer_from_base64 sample_node raw_signature) = Some True \<and>
   verifyMessageSignature sample_node alice_only ''alice'' ''hello'' raw_signature = True \<and>
   encodings_tried sample_node alice_only ''alice'' ''hello'' raw_signature = [IEEE_P1363] \<and>
   verify sample_node IEEE_P1363 ''alicekey'' ''hello''
     (buffer_from_base64 sample_node ''der:alicekey:other'') = None \<and>
   verifyMessageSignature sample_node alice_only ''alice'' ''hello'' ''der:alicekey:other'' = False \<and>
   encodings_tried sample_node alice_only ''alice'' ''hello'' ''der:alicekey:other'' =
     [IEEE_P1363, DER]"
proof -
  have k: "getSigningKey alice_only ''alice'' = Inr (Some ''alicekey'') \<and>
      createPublicKey sample_node ''alicekey'' = Some ''alicekey''"
    by (simp add: getSigningKey_def alice_only_def sample_node_def)
  have r: "verify sample_node IEEE_P1363 ''alicekey'' ''hello''
        (buffer_from_base64 sample_node raw_signature) = Some True"
    by (simp add: sample_node_def raw_signature_def)
  have m: "verify sample_node IEEE_P1363 ''alicekey'' ''hello''
        (buffer_from_base64 sample_node ''der:alicekey:other'') = None"
    by (simp add: sample_node_def)
  have d: "verify sample_node DER ''alicekey'' ''hello''
        (buffer_from_base64 sample_node ''der:alicekey:other'') = Some False"
    by (simp add: sample_node_def)
  from der_tried_after_exception [of sample_node alice_only "''alice''" "''hello''" raw_signature]
    k r
  have first: "verifyMessageSignature sample_node alice_only ''alice'' ''hello'' raw_signature = True \<and>
      encodings_tried sample_node alice_only ''alice'' ''hello'' raw_signature = [IEEE_P1363]"
    by blast
  from der_tried_after_exception
         [of sample_node alice_only "''alice''" "''hello''" "''der:alicekey:other''"] k m d
  have second: "verifyMessageSignature sample_node alice_only ''alice'' ''hello''
        ''der:alicekey:other'' = False \<and>
      encodings_tried sample_node alice_only ''alice'' ''hello'' ''der:alicekey:other'' =
        [IEEE_P1363, DER]"
    by auto
  from k r m first second show ?thesis by simp
qed

text \<open>
  Claim C3 as stated fails: a signature that the raw-encoding attempt rejects with an
  exception is verified again under DER and accepted.
\<close>

theorem der_fallback_counterexample:
  "verifyMessageSignature sample_node alice_only ''alice'' ''hello'' ''der:alicekey:hello'' = True \<and>
   encodings_tried sample_node alice_only ''alice'' ''hello'' ''der:alicekey:hello'' = [IEEE_P1363, DER] \<and>
   verify sample_node IEEE_P1363 ''alicekey'' ''hello''
     (buffer_from_base64 sample_node ''der:alicekey:hello'') = None"
  by (simp add: sig_defs sample_node_def alice_only_def)

text \<open>
  Claim C4, as amended. The verification of a posted message never throws and returns
  a boolean. It is \<^verbatim>\<open>true\<close> exactly when a non-empty signature is present, the sender's
  key is stored and imports, and the signature verifies (at the first attempt, or under
  DER after the first attempt threw). In every other case it is \<^verbatim>\<open>false\<close>: no
  signature, no stored key, a failed query, a key that does not import, and a signature
  that does not verify all give the same value.
\<close>

theorem verified_is_boolean:
  "uss_message_verified C users senderUsername message signatureBase64 \<longleftrightarrow>
     (\<exists>s pem key. signatureBase64 = Some s \<and> s \<noteq> [] \<and>
        getSigningKey users senderUsername = Inr (Some pem) \<and> createPublicKey C pem = Some key \<and>
        (verify C IEEE_P1363 key message (buffer_from_base64 C s) = Some True \<or>
         verify C IEEE_P1363 key message (buffer_from_base64 C s) = None \<and>
         verify C DER key message (buffer_from_base64 C s) = Some True))"
  by (cases signatureBase64) (simp_all add: uss_message_verified_def verifyMessageSignature_iff)

text \<open>
  Claim C4 as stated fails: a signed message from a sender with no stored key, a
  message with a wrong signature and an unsigned message all come out as \<^verbatim>\<open>false\<close>, so
  no reading of the result tells "unsigned" from "invalid".
\<close>

theorem unsigned_invalid_same_counterexample:
  "uss_message_verified sample_node alice_only ''mallory'' ''hello'' (Some ''der:alicekey:hello'') = False \<and>
   uss_message_verified sample_node alice_only ''alice'' ''hello'' (Some ''der:alicekey:hellx'') = False \<and>
   uss_message_verified sample_node alice_only ''alice'' ''hello'' None = False \<and>
   \<not> (\<exists>outcome :: bool \<Rightarrow> verification_outcome.
        outcome (uss_message_verified sample_node alice_only ''mallory'' ''hello'' (Some ''der:alicekey:hello'')) = Unsigned \<and>
        outcome (uss_message_verified sample_node alice_only ''alice'' ''hello'' (Some ''der:alicekey:hellx'')) = Invalid)"
  by (simp add: sig_defs sample_node_def alice_only_def)

section \<open>Claims about the client's cryptography\<close>

text \<open>
  Claim C8. The session key of two identities does not depend on their order: it is
  the SHA-256 digest of the encoding of the smaller string, a colon and the larger
  string. It is a function of the two strings alone.
\<close>

theorem getSessionKey_order_independent:
  "getSessionKey P usernameA usernameB = getSessionKey P usernameB usernameA \<and>
   getSessionKey P usernameA usernameB =
     digest_sha256 P (text_encode P (min usernameA usernameB @ js '':'' @ max usernameA usernameB))"
  by (cases "usernameA \<le> usernameB"; cases "usernameB \<le> usernameA")
     (auto simp add: getSessionKey_def sort_pair min_def max_def)

text \<open>
  Claim C7, as amended. For a 256-bit session key, a message number and a plaintext,
  \<^verbatim>\<open>encryptMessage\<close> returns a blob, and decrypting the blob with the same key and
  number returns \<^verbatim>\<open>TextDecoder.decode(TextEncoder.encode(plaintext))\<close>: the plaintext
  exactly when the text codec gives it back. The Web Crypto API is taken at its
  contract where the round trip goes through it: the IV is 12 bytes, HMAC-SHA-256
  returns 32 bytes, and AES-GCM decryption inverts encryption under the derived key
  and the IV. Nothing is assumed of the text codec.
\<close>

theorem decrypt_encrypt_result:
  assumes "length sessionKeyRaw = 32"
    and "length randomValues = 12"
    and "length (hmac_sha256 P sessionKeyRaw (text_encode P (js_String msgNo))) = 32"
    and "aes_gcm_decrypt P (hmac_sha256 P sessionKeyRaw (text_encode P (js_String msgNo)))
           randomValues
           (aes_gcm_encrypt P (hmac_sha256 P sessionKeyRaw (text_encode P (js_String msgNo)))
              randomValues (text_encode P plaintext)) =
         Some (text_encode P plaintext)"
  shows "\<exists>blob. encryptMessage P randomValues sessionKeyRaw msgNo plaintext = Inr blob \<and>
           decryptMessage P sessionKeyRaw msgNo blob =
             Inr (text_decode P (text_encode P plaintext)) \<and>
           (decryptMessage P sessionKeyRaw msgNo blob = Inr plaintext \<longleftrightarrow>
              text_decode P (text_encode P plaintext) = plaintext)"
proof -
  from message_roundtrip [OF assms] obtain blob where
    e: "encryptMessage P randomValues sessionKeyRaw msgNo plaintext = Inr blob"
    and d: "decryptMessage P sessionKeyRaw msgNo blob =
      Inr (text_decode P (text_encode P plaintext))"
    by blast
  from d have "decryptMessage P sessionKeyRaw msgNo blob = Inr plaintext \<longleftrightarrow>
      text_decode P (text_encode P plaintext) = plaintext"
    by simp
  with e d show ?thesis by blast
qed

text \<open>
  The message "hello" with number 1000, on the stand-in with the text codec of the
  browser, which gives it back.
\<close>

theorem decrypt_encrypt_result_witness:
  "length key0 = 32 \<and> length iv0 = 12 \<and>
   text_decode stand_in_utf8 (text_encode stand_in_utf8 (js ''hello'')) = js ''hello'' \<and>
   (\<exists>blob. encryptMessage stand_in_utf8 iv0 key0 1000 (js ''hello'') = Inr blob \<and>
           decryptMessage stand_in_utf8 key0 1000 blob = Inr (js ''hello''))"
proof -
  have 1: "length key0 = 32" by (simp add: key0_def)
  have 2: "length iv0 = 12" by (simp add: iv0_def)
  have 5: "text_decode stand_in_utf8 (text_encode stand_in_utf8 (js ''hello'')) = js ''hello''"
    by (simp add: stand_in_utf8_fields(1,2) utf8_defs js_def)
  from decrypt_encrypt_result [where P = stand_in_utf8 and msgNo = 1000 and plaintext = "js ''hello''",
      OF 1 2 stand_in_utf8_fields(3) stand_in_utf8_fields(4)]
  obtain blob where "encryptMessage stand_in_utf8 iv0 key0 1000 (js ''hello'') = Inr blob"
    "decryptMessage stand_in_utf8 key0 1000 blob = Inr (js ''hello'')"
    unfolding 5 by blast
  with 1 2 5 show ?thesis by blast
qed

text \<open>
  Claim C7 as stated fails on plaintexts the text codec does not give back. The
  plaintext U+FEFF \<^verbatim>\<open>hi\<close> is encoded as \<^verbatim>\<open>EF BB BF 68 69\<close>; the decoder drops the three
  bytes at the start as a byte order mark, and decryption returns \<^verbatim>\<open>hi\<close>. The
  plaintext of the single high surrogate U+D83D is encoded as \<^verbatim>\<open>EF BF BD\<close>, the bytes
  of U+FFFD, and decryption returns U+FFFD.
\<close>

theorem codec_changes_plaintext_counterexample:
  "TextEncoder_encode (0xFEFF # js ''hi'') = [0xEF, 0xBB, 0xBF, 0x68, 0x69] \<and>
   (\<exists>blob. encryptMessage stand_in_utf8 iv0 key0 1000 (0xFEFF # js ''hi'') = Inr blob \<and>
           decryptMessage stand_in_utf8 key0 1000 blob = Inr (js ''hi'')) \<and>
   js ''hi'' \<noteq> 0xFEFF # js ''hi'' \<and>
   TextEncoder_encode [0xD83D] = [0xEF, 0xBF, 0xBD] \<and>
   (\<exists>blob. encryptMessage stand_in_utf8 iv0 key0 1000 [0xD83D] = Inr blob \<and>
           decryptMessage stand_in_utf8 key0 1000 blob = Inr [0xFFFD])"
proof -
  have 1: "TextEncoder_encode (0xFEFF # js ''hi'') = [0xEF, 0xBB, 0xBF, 0x68, 0x69]"
    by (simp add: utf8_defs js_def)
  have 2: "TextDecoder_decode [0xEF, 0xBB, 0xBF, 0x68, 0x69] = js ''hi''"
    by (simp add: utf8_defs js_def)
  have 3: "TextEncoder_encode [0xD83D] = [0xEF, 0xBF, 0xBD]"
    by (simp add: utf8_defs)
  have 4: "TextDecoder_decode [0xEF, 0xBF, 0xBD] = [0xFFFD]"
    by (simp add: utf8_defs)
  have 5: "js ''hi'' \<noteq> 0xFEFF # js ''hi''" by (simp add: js_def)
  from stand_in_utf8_roundtrip [of 1000 "0xFEFF # js ''hi''"]
  have a: "\<exists>blob. encryptMessage stand_in_utf8 iv0 key0 1000 (0xFEFF # js ''hi'') = Inr blob \<and>
           decryptMessage stand_in_utf8 key0 1000 blob = Inr (js ''hi'')"
    unfolding 1 2 .
  from stand_in_utf8_roundtrip [of 1000 "[0xD83D]"]
  have b: "\<exists>blob. encryptMessage stand_in_utf8 iv0 key0 1000 [0xD83D] = Inr blob \<and>
           decryptMessage stand_in_utf8 key0 1000 blob = Inr [0xFFFD]"
    unfolding 3 4 .
  from 1 a 5 3 b show ?thesis by blast
qed

text \<open>
  Claim C5, as amended. For every passphrase and salt, the verifier that
  \<^verbatim>\<open>hashPassphrase\<close> returns is the base64 encoding of the very 256 bits that
  \<^verbatim>\<open>derivePassphraseKey\<close> imports as the AES-GCM key. Decoding the verifier gives the
  key, and decrypting with it gives, on every ciphertext and IV, what
  \<^verbatim>\<open>decryptWithPassphrase\<close> gives with the passphrase.
\<close>

theorem verifier_is_passphrase_key:
  "\<exists>verifier. hashPassphrase P passphrase saltBytes = Inr verifier \<and>
      base64ToUint8Array verifier = Inr (key_material (derivePassphraseKey P passphrase saltBytes)) \<and>
      (\<forall>encryptedBase64 ivBase64.
         unwrap_with_verifier P encryptedBase64 ivBase64 verifier =
           decryptWithPassphrase P encryptedBase64 ivBase64 passphrase saltBytes)"
proof -
  let ?bits = "pbkdf2_sha512 P (text_encode P passphrase) saltBytes 310000 256"
  obtain verifier where v: "arrayBufferToBase64 ?bits = Inr verifier"
    and d: "base64ToUint8Array verifier = Inr ?bits"
    using base64_roundtrip by blast
  have "hashPassphrase P passphrase saltBytes = Inr verifier"
    using v by (simp add: hashPassphrase_def Let_def)
  moreover have km: "key_material (derivePassphraseKey P passphrase saltBytes) = ?bits"
    by (simp add: derivePassphraseKey_def Let_def)
  moreover have "base64ToUint8Array verifier =
      Inr (key_material (derivePassphraseKey P passphrase saltBytes))"
    using d km by simp
  moreover have "\<forall>encryptedBase64 ivBase64.
         unwrap_with_verifier P encryptedBase64 ivBase64 verifier =
           decryptWithPassphrase P encryptedBase64 ivBase64 passphrase saltBytes"
    unfolding unwrap_with_verifier_def decryptWithPassphrase_def Let_def d km by simp
  ultimately show ?thesis by blast
qed

text \<open>
  Claim C5 as stated fails: a payload wrapped under the passphrase
  \<^verbatim>\<open>Sn0wLeopard!2024\<close> is unwrapped from the ciphertext, the IV and the verifier alone.
\<close>

theorem verifier_unwraps_counterexample:
  "\<exists>verifier encryptedBase64 ivBase64.
      hashPassphrase stand_in (js ''Sn0wLeopard!2024'') salt0 = Inr verifier \<and>
      encryptWithPassphrase stand_in iv0 key0 (js ''Sn0wLeopard!2024'') salt0 =
        Inr (encryptedBase64, ivBase64) \<and>
      unwrap_with_verifier stand_in encryptedBase64 ivBase64 verifier = Inr key0"
proof -
  let ?p = "js ''Sn0wLeopard!2024''"
  let ?bits = "pbkdf2_sha512 stand_in (text_encode stand_in ?p) salt0 310000 256"
  let ?encrypted = "aes_gcm_encrypt stand_in ?bits iv0 key0"
  obtain verifier where v: "hashPassphrase stand_in ?p salt0 = Inr verifier"
    and d: "base64ToUint8Array verifier = Inr ?bits"
    using verifier_is_key by blast
  obtain encryptedBase64 where e: "arrayBufferToBase64 ?encrypted = Inr encryptedBase64"
    and de: "base64ToUint8Array encryptedBase64 = Inr ?encrypted"
    using base64_roundtrip by blast
  obtain ivBase64 where i: "arrayBufferToBase64 iv0 = Inr ivBase64"
    and di: "base64ToUint8Array ivBase64 = Inr iv0"
    using base64_roundtrip by blast
  have w: "encryptWithPassphrase stand_in iv0 key0 ?p salt0 = Inr (encryptedBase64, ivBase64)"
    using e i by (simp add: encryptWithPassphrase_def derivePassphraseKey_def Let_def)
  have g: "aes_gcm_decrypt stand_in ?bits iv0 ?encrypted = Some key0"
    by (simp add: stand_in_fields key0_def)
  have "unwrap_with_verifier stand_in encryptedBase64 ivBase64 verifier = Inr key0"
    using d de di g by (simp add: unwrap_with_verifier_def)
  with v w show ?thesis by blast
qed

text \<open>
  Claim C10. The score of a passphrase is at most 100, and a passphrase that passes
  all five checks scores at least 70, so its strength is medium or strong.
\<close>

theorem passphrase_score_bounds: "score (validatePassphraseStrength p) \<le> 100 \<and>
   (valid (validatePassphraseStrength p) \<longrightarrow>
      70 \<le> score (validatePassphraseStrength p) \<and>
      (strength (validatePassphraseStrength p) = medium \<or> strength (validatePassphraseStrength p) = strong))"
  by (simp add: validatePassphraseStrength_def Let_def split: if_splits)

text \<open>The passphrase \<^verbatim>\<open>Sn0wLeopard!2024\<close>.\<close>

theorem passphrase_score_bounds_witness: "valid (validatePassphraseStrength (js ''Sn0wLeopard!2024'')) \<and>
   score (validatePassphraseStrength (js ''Sn0wLeopard!2024'')) = 90 \<and>
   strength (validatePassphraseStrength (js ''Sn0wLeopard!2024'')) = strong"
  using passphrase_score_bounds [of "js ''Sn0wLeopard!2024''"]
  by (simp add: validatePassphraseStrength_def Let_def js_def special_characters_def)

end
